theory Spec2Isabelle
  imports Complex_Main
begin

section \<open>Tabular temporal-difference learning and bandits (TD.py, bandit.py)\<close>

text \<open>
  Python floats are modelled as \<^typ>\<open>real\<close>: every arithmetic expression below is the
  source expression, read over the reals, so rounding is not part of the model.
  Every raise of the source is a value of \<open>py_error\<close>; a computation returns
  \<open>py_error + 'a\<close> with \<open>Inl\<close> for the fault.
\<close>

subsection \<open>Faults\<close>

datatype py_error =
    KeyError
  | IndexError
  | ValueError
  | TypeError
  | ZeroDivisionError
  | AttributeError string

definition bind_err :: "py_error + 'a \<Rightarrow> ('a \<Rightarrow> py_error + 'b) \<Rightarrow> py_error + 'b" where
  "bind_err m f = (case m of Inl e \<Rightarrow> Inl e | Inr x \<Rightarrow> f x)"

subsection \<open>The environment contract and the run parameters\<close>

text \<open>
  The environment class is a collaborator outside the two source files. The drivers read
  the attributes below from \<open>self.env\<close>; the transition function and the terminal
  predicate are taken as pure functions, the grid as a finite lookup table that raises
  on a state it does not hold.
\<close>

record ('s, 'a) env =
  possible_actions :: "'a list"
  all_states :: "'s list"
  available_states :: "'s list"
  initial_state :: "'s option"
  is_terminal_state :: "'s \<Rightarrow> bool"
  new_state_given_action :: "'s \<Rightarrow> 'a \<Rightarrow> 's"
  grid :: "'s \<Rightarrow> real option"

text \<open>
  The instance fields set by the constructors. Every TD class stores \<open>alpha\<close>,
  \<open>gamma\<close>, \<open>starting_state\<close> and \<open>num_of_epochs\<close>; \<open>starting_state\<close> is
  the field after the constructor has replaced \<open>None\<close> by \<open>env.initial_state\<close>
  (which may itself be \<open>None\<close>). \<open>Sarsa\<close>, \<open>QLearning\<close>, \<open>DoubleQLearning\<close>
  and \<open>TabularDynaQ\<close> add \<open>epsilon\<close> and the step ceiling \<open>num_episodes\<close>;
  \<open>TabularTD0\<close> adds \<open>reward\<close> and has no ceiling field; \<open>NStepTD\<close> adds
  \<open>step_cost\<close> and \<open>n_step\<close>.
\<close>

record 's td_params =
  alpha :: real
  gamma :: real
  starting_state :: "'s option"
  num_of_epochs :: nat

record 's control_params = "'s td_params" +
  epsilon :: real
  num_episodes :: int

record 's td0_params = "'s td_params" +
  reward :: real

record 's nstep_params = "'s td_params" +
  step_cost :: real
  n_step :: int

text \<open>
  The base class \<open>RLFunctions\<close> (tool_box.py) is not among the source files, so its
  two helpers are parameters, as are the draws of the random generators. \<open>'r\<close> is the
  state of the generators: every draw returns its value and the next state.
  \<open>randint n\<close> is a uniform index below \<open>n\<close>, the draw behind \<open>random.choice\<close>,
  \<open>np.random.choice\<close> and \<open>np.random.randint\<close>.
\<close>

record ('s, 'a, 'r) rl_functions =
  get_random_action :: "'s option \<Rightarrow> 'r \<Rightarrow> 'a \<times> 'r"
  epsilon_greedy :: "'a \<Rightarrow> 'r \<Rightarrow> 'a \<times> 'r"
  rand :: "'r \<Rightarrow> real \<times> 'r"
  randint :: "nat \<Rightarrow> 'r \<Rightarrow> nat \<times> 'r"
  standard_normal :: "'r \<Rightarrow> real \<times> 'r"

text \<open>\<open>random.choice(xs)\<close> and \<open>np.random.choice(xs)\<close>: a fault on an empty sequence.\<close>

definition random_choice ::
  "('s, 'a, 'r) rl_functions \<Rightarrow> py_error \<Rightarrow> 'b list \<Rightarrow> 'r \<Rightarrow> py_error + ('b \<times> 'r)" where
  "random_choice f err xs r =
     (if xs = [] then Inl err
      else (case randint f (length xs) r of (i, r') \<Rightarrow> Inr (xs ! (i mod length xs), r')))"

definition grid_at :: "('s, 'a) env \<Rightarrow> 's \<Rightarrow> py_error + real" where
  "grid_at e s = (case grid e s of None \<Rightarrow> Inl IndexError | Some v \<Rightarrow> Inr v)"

subsection \<open>The action-value table\<close>

text \<open>
  \<open>get_q_df\<close> builds a dataframe of zeros with one row per state of \<open>all_states\<close>
  and one column per action of \<open>possible_actions\<close>. \<open>q_at\<close> is the read
  \<open>df.at[state, action]\<close>, which raises \<open>KeyError\<close> on a missing label.
\<close>

type_synonym ('s, 'a) qtable = "'s \<times> 'a \<Rightarrow> real option"

definition get_q_df :: "('s, 'a) env \<Rightarrow> ('s, 'a) qtable" where
  "get_q_df e = (\<lambda>(s, a).
     if s \<in> set (all_states e) \<and> a \<in> set (possible_actions e) then Some 0 else None)"

definition q_at :: "('s, 'a) qtable \<Rightarrow> 's \<Rightarrow> 'a \<Rightarrow> py_error + real" where
  "q_at q s a = (case q (s, a) of None \<Rightarrow> Inl KeyError | Some v \<Rightarrow> Inr v)"

text \<open>\<open>[f(x) for x in xs]\<close> where \<open>f\<close> may raise: the first fault wins.\<close>

fun map_err :: "('a \<Rightarrow> py_error + 'b) \<Rightarrow> 'a list \<Rightarrow> py_error + 'b list" where
  "map_err f [] = Inr []"
| "map_err f (x # xs) =
     bind_err (f x) (\<lambda>y. bind_err (map_err f xs) (\<lambda>ys. Inr (y # ys)))"

text \<open>Python's \<open>max\<close> over an iterable: \<open>ValueError\<close> when it is empty.\<close>

fun py_max :: "real list \<Rightarrow> py_error + real" where
  "py_max [] = Inl ValueError"
| "py_max (v # vs) = Inr (foldl max v vs)"

subsection \<open>Update rules (TD.py, lines 31-47)\<close>

definition sarsa_formula ::
  "('s, 'm) td_params_scheme \<Rightarrow> ('s, 'a) qtable \<Rightarrow> 's \<Rightarrow> 'a \<Rightarrow> real \<Rightarrow> 's \<Rightarrow> 'a
     \<Rightarrow> py_error + ('s, 'a) qtable" where
  "sarsa_formula p q state action rwd next_state next_action =
     bind_err (q_at q state action) (\<lambda>old.
     bind_err (q_at q next_state next_action) (\<lambda>nxt.
     bind_err (q_at q state action) (\<lambda>old2.
       Inr (q((state, action) \<mapsto> old + alpha p * (rwd + gamma p * nxt - old2))))))"

definition q_learning_formula ::
  "('s, 'a) env \<Rightarrow> ('s, 'm) td_params_scheme \<Rightarrow> ('s, 'a) qtable \<Rightarrow> 's \<Rightarrow> 'a \<Rightarrow> real
     \<Rightarrow> 's \<Rightarrow> 'a \<Rightarrow> py_error + ('s, 'a) qtable" where
  "q_learning_formula e p q state action rwd next_state unused =
     bind_err (map_err (q_at q next_state) (possible_actions e)) (\<lambda>row.
     bind_err (py_max row) (\<lambda>max_value.
     bind_err (q_at q state action) (\<lambda>old.
     bind_err (q_at q state action) (\<lambda>old2.
       Inr (q((state, action) \<mapsto> old + alpha p * (rwd + gamma p * max_value - old2)))))))"

subsection \<open>The shared control driver (TD.py, lines 62-99)\<close>

text \<open>
  \<open>td_control\<close> receives the update rule as a callable; the two callers pass
  \<open>sarsa_formula\<close> and \<open>q_learning_formula\<close>.
\<close>

datatype td_rule = Sarsa | QLearning

definition algo ::
  "td_rule \<Rightarrow> ('s, 'a) env \<Rightarrow> ('s, 'm) td_params_scheme \<Rightarrow> ('s, 'a) qtable \<Rightarrow> 's \<Rightarrow> 'a \<Rightarrow> real
     \<Rightarrow> 's \<Rightarrow> 'a \<Rightarrow> py_error + ('s, 'a) qtable" where
  "algo rule e p = (case rule of Sarsa \<Rightarrow> sarsa_formula p | QLearning \<Rightarrow> q_learning_formula e p)"

text \<open>
  Line 67: \<open>{state: self.get_random_action() for state in self.env.all_states}\<close>.
  Lines 69-70 then replace every value by \<open>epsilon_greedy\<close> of it, in the order of
  the dictionary's keys (the first occurrences in \<open>all_states\<close>).
\<close>

fun random_pairs ::
  "('s, 'a, 'r) rl_functions \<Rightarrow> 's list \<Rightarrow> ('s \<Rightarrow> 'a option) \<Rightarrow> 'r \<Rightarrow> ('s \<Rightarrow> 'a option) \<times> 'r" where
  "random_pairs f [] m r = (m, r)"
| "random_pairs f (s # ss) m r =
     (case get_random_action f None r of (a, r') \<Rightarrow> random_pairs f ss (m(s \<mapsto> a)) r')"

fun greedy_pairs ::
  "('s, 'a, 'r) rl_functions \<Rightarrow> 's list \<Rightarrow> ('s \<Rightarrow> 'a option) \<Rightarrow> 'r \<Rightarrow> ('s \<Rightarrow> 'a option) \<times> 'r" where
  "greedy_pairs f [] m r = (m, r)"
| "greedy_pairs f (x # xs) m r =
     (case m x of
        None \<Rightarrow> greedy_pairs f xs m r
      | Some y \<Rightarrow> (case epsilon_greedy f y r of (a, r') \<Rightarrow> greedy_pairs f xs (m(x \<mapsto> a)) r'))"

definition dict_keys :: "'s list \<Rightarrow> 's list" where
  "dict_keys xs = rev (remdups (rev xs))"

text \<open>The variables of the episode loop (lines 78-97).\<close>

record ('s, 'a, 'r) td_state =
  q_values_df :: "('s, 'a) qtable"
  state_action_pairs :: "'s \<Rightarrow> 'a option"
  st_state :: 's
  st_action :: 'a
  num_of_steps :: nat
  rng :: 'r

text \<open>One pass through the body of the \<open>while\<close> loop, lines 85-97.\<close>

definition td_step ::
  "td_rule \<Rightarrow> ('s, 'a) env \<Rightarrow> ('s, 'm) control_params_scheme \<Rightarrow> ('s, 'a, 'r) rl_functions
     \<Rightarrow> ('s, 'a, 'r) td_state \<Rightarrow> py_error + ('s, 'a, 'r) td_state" where
  "td_step rule e p f st =
     (let next_state = new_state_given_action e (st_state st) (st_action st) in
      case state_action_pairs st next_state of
        None \<Rightarrow> Inl KeyError
      | Some y \<Rightarrow>
         (case epsilon_greedy f y (rng st) of (next_action, r') \<Rightarrow>
            bind_err (grid_at e next_state) (\<lambda>rew.
            bind_err (algo rule e p (q_values_df st) (st_state st) (st_action st) rew
                        next_state next_action) (\<lambda>q'.
              Inr \<lparr> q_values_df = q',
                    state_action_pairs = (state_action_pairs st)(next_state \<mapsto> next_action),
                    st_state = next_state,
                    st_action = next_action,
                    num_of_steps = num_of_steps st + 1,
                    rng = r' \<rparr>))))"

text \<open>
  Line 83: \<open>while not self.env.is_terminal_state(state) and num_of_steps < self.num_episodes\<close>.
\<close>

function td_loop ::
  "td_rule \<Rightarrow> ('s, 'a) env \<Rightarrow> ('s, 'm) control_params_scheme \<Rightarrow> ('s, 'a, 'r) rl_functions
     \<Rightarrow> ('s, 'a, 'r) td_state \<Rightarrow> py_error + ('s, 'a, 'r) td_state" where
  "td_loop rule e p f st =
     (if \<not> is_terminal_state e (st_state st) \<and> int (num_of_steps st) < num_episodes p
      then (case td_step rule e p f st of
              Inl err \<Rightarrow> Inl err
            | Inr st' \<Rightarrow> td_loop rule e p f st')
      else Inr st)"
  by pat_completeness auto
termination
  apply (relation "measure (\<lambda>(rule, e, p, f, st). nat (num_episodes p - int (num_of_steps st)))")
   apply simp
  apply (auto simp: td_step_def Let_def bind_err_def
              split: option.splits prod.splits sum.splits)
  done

declare td_loop.simps [simp del]

text \<open>
  \<open>k\<close> passes through the body of the loop, one after another, from the loop state
  \<open>st\<close>: the state after them, or the fault of the first pass that raises.
\<close>

fun td_steps ::
  "nat \<Rightarrow> td_rule \<Rightarrow> ('s, 'a) env \<Rightarrow> ('s, 'm) control_params_scheme \<Rightarrow> ('s, 'a, 'r) rl_functions
     \<Rightarrow> ('s, 'a, 'r) td_state \<Rightarrow> py_error + ('s, 'a, 'r) td_state" where
  "td_steps 0 rule e p f st = Inr st"
| "td_steps (Suc k) rule e p f st = bind_err (td_step rule e p f st) (td_steps k rule e p f)"

text \<open>One epoch: the body of the \<open>for\<close> loop, lines 74-97.\<close>

definition td_epoch ::
  "td_rule \<Rightarrow> ('s, 'a) env \<Rightarrow> ('s, 'm) control_params_scheme \<Rightarrow> ('s, 'a, 'r) rl_functions
     \<Rightarrow> ('s, 'a) qtable \<times> ('s \<Rightarrow> 'a option) \<times> 'r
     \<Rightarrow> py_error + (('s, 'a) qtable \<times> ('s \<Rightarrow> 'a option) \<times> 'r)" where
  "td_epoch rule e p f = (\<lambda>(q, pairs, r).
     bind_err (case starting_state p of
                 None \<Rightarrow> random_choice f IndexError (available_states e) r
               | Some s \<Rightarrow> Inr (s, r)) (\<lambda>(s, r1).
     case pairs s of
       None \<Rightarrow> Inl KeyError
     | Some a \<Rightarrow>
        bind_err (td_loop rule e p f
                    \<lparr> q_values_df = q, state_action_pairs = pairs, st_state = s,
                      st_action = a, num_of_steps = 0, rng = r1 \<rparr>) (\<lambda>st.
          Inr (q_values_df st, state_action_pairs st, rng st))))"

text \<open>\<open>for epoch in range(n)\<close> over a body that may raise.\<close>

fun for_range :: "nat \<Rightarrow> ('x \<Rightarrow> py_error + 'x) \<Rightarrow> 'x \<Rightarrow> py_error + 'x" where
  "for_range 0 body x = Inr x"
| "for_range (Suc n) body x = bind_err (body x) (for_range n body)"

text \<open>
  \<open>td_control\<close> hands its final table to the plotting helper and returns nothing; the
  model returns that table and the state of the generators.
\<close>

definition td_control ::
  "td_rule \<Rightarrow> ('s, 'a) env \<Rightarrow> ('s, 'm) control_params_scheme \<Rightarrow> ('s, 'a, 'r) rl_functions \<Rightarrow> 'r
     \<Rightarrow> py_error + (('s, 'a) qtable \<times> 'r)" where
  "td_control rule e p f r =
     (case random_pairs f (all_states e) Map.empty r of (pairs0, r0) \<Rightarrow>
      case greedy_pairs f (dict_keys (all_states e)) pairs0 r0 of (pairs1, r1) \<Rightarrow>
        bind_err (for_range (num_of_epochs p) (td_epoch rule e p f) (get_q_df e, pairs1, r1))
          (\<lambda>(q, pairs, r2). Inr (q, r2)))"

subsection \<open>TD(0) prediction (TD.py, lines 139-155)\<close>

text \<open>
  \<open>TabularTD0.compute_state_value\<close> keeps no table of its own: it reads and assigns
  \<open>self.env.grid\<close>, so the loop threads the environment. Its variables are the
  environment, \<open>state\<close>, \<open>done\<close> and the generators.
\<close>

type_synonym ('s, 'a, 'r) td0_state = "('s, 'a) env \<times> 's \<times> bool \<times> 'r"

text \<open>The body of \<open>while not done\<close>, lines 148-155.\<close>

definition td0_step ::
  "('s, 'm) td0_params_scheme \<Rightarrow> ('s, 'a, 'r) rl_functions \<Rightarrow> ('s, 'a, 'r) td0_state
     \<Rightarrow> py_error + ('s, 'a, 'r) td0_state" where
  "td0_step p f = (\<lambda>(e, state, done, r).
     case get_random_action f None r of (action, r') \<Rightarrow>
       (let next_state = new_state_given_action e state action in
        bind_err (grid_at e state) (\<lambda>v.
        bind_err (grid_at e next_state) (\<lambda>v_next.
        bind_err (grid_at e state) (\<lambda>v2.
          Inr (e\<lparr> grid := (grid e)(state \<mapsto>
                   v + alpha p * (reward p + gamma p * v_next * (if done then 0 else 1) - v2)) \<rparr>,
               next_state,
               is_terminal_state e next_state,
               r'))))))"

text \<open>
  The loop has no counter, so nothing bounds it: it is a partial function, and
  \<open>None\<close> is the run that never leaves the loop.
\<close>

partial_function (option) td0_loop ::
  "('s, 'm) td0_params_scheme \<Rightarrow> ('s, 'a, 'r) rl_functions \<Rightarrow> ('s, 'a, 'r) td0_state
     \<Rightarrow> (py_error + ('s, 'a, 'r) td0_state) option" where
  "td0_loop p f st =
     (if \<not> fst (snd (snd st))
      then (case td0_step p f st of
              Inl err \<Rightarrow> Some (Inl err)
            | Inr st' \<Rightarrow> td0_loop p f st')
      else Some (Inr st))"

declare td0_loop.simps [code]

text \<open>\<open>k\<close> passes through the body of the loop, one after another.\<close>

fun td0_steps ::
  "nat \<Rightarrow> ('s, 'm) td0_params_scheme \<Rightarrow> ('s, 'a, 'r) rl_functions \<Rightarrow> ('s, 'a, 'r) td0_state
     \<Rightarrow> py_error + ('s, 'a, 'r) td0_state" where
  "td0_steps 0 p f st = Inr st"
| "td0_steps (Suc k) p f st = bind_err (td0_step p f st) (td0_steps k p f)"

text \<open>One epoch (lines 145-155) and the loop over the epochs (line 141).\<close>

definition td0_epoch ::
  "('s, 'm) td0_params_scheme \<Rightarrow> ('s, 'a, 'r) rl_functions \<Rightarrow> ('s, 'a) env \<times> 'r
     \<Rightarrow> (py_error + ('s, 'a) env \<times> 'r) option" where
  "td0_epoch p f = (\<lambda>(e, r).
     case starting_state p of
       None \<Rightarrow> Some (Inl TypeError)
     | Some s \<Rightarrow>
        (case td0_loop p f (e, s, False, r) of
           None \<Rightarrow> None
         | Some (Inl err) \<Rightarrow> Some (Inl err)
         | Some (Inr (e', s', done, r')) \<Rightarrow> Some (Inr (e', r'))))"

fun for_range_partial ::
  "nat \<Rightarrow> ('x \<Rightarrow> (py_error + 'x) option) \<Rightarrow> 'x \<Rightarrow> (py_error + 'x) option" where
  "for_range_partial 0 body x = Some (Inr x)"
| "for_range_partial (Suc n) body x =
     (case body x of
        None \<Rightarrow> None
      | Some (Inl err) \<Rightarrow> Some (Inl err)
      | Some (Inr y) \<Rightarrow> for_range_partial n body y)"

definition td0_compute_state_value ::
  "('s, 'm) td0_params_scheme \<Rightarrow> ('s, 'a, 'r) rl_functions \<Rightarrow> ('s, 'a) env \<Rightarrow> 'r
     \<Rightarrow> (py_error + ('s, 'a) env \<times> 'r) option" where
  "td0_compute_state_value p f e r = for_range_partial (num_of_epochs p) (td0_epoch p f) (e, r)"

subsection \<open>n-step TD (TD.py, lines 277-317)\<close>

text \<open>
  Python's list indexing (a negative index counts from the end), \<open>range(a, b)\<close>,
  and \<open>x ** k\<close> for a float \<open>x\<close> and an integer \<open>k\<close>, which raises on
  \<open>0.0\<close> with a negative exponent.
\<close>

definition py_index :: "'b list \<Rightarrow> int \<Rightarrow> py_error + 'b" where
  "py_index xs i =
     (if 0 \<le> i \<and> i < int (length xs) then Inr (xs ! nat i)
      else if i < 0 \<and> - int (length xs) \<le> i then Inr (xs ! nat (int (length xs) + i))
      else Inl IndexError)"

definition py_range :: "int \<Rightarrow> int \<Rightarrow> int list" where
  "py_range a b = [a..b - 1]"

definition py_pow :: "real \<Rightarrow> int \<Rightarrow> py_error + real" where
  "py_pow x k =
     (if 0 \<le> k then Inr (x ^ nat k)
      else if x = 0 then Inl ZeroDivisionError
      else Inr (1 / x ^ nat (- k)))"

text \<open>The variables of the loop, lines 285-289; \<open>next_state\<close> is unbound at first.\<close>

record ('s, 'a, 'r) nstep_state =
  ns_env :: "('s, 'a) env"
  ns_T :: int
  ns_t :: int
  ns_states :: "'s list"
  ns_rewards :: "real list"
  ns_state :: 's
  ns_next_state :: "'s option"
  ns_done :: bool
  ns_rng :: 'r

text \<open>Lines 291-301: take a step while \<open>t < T\<close>.\<close>

definition nstep_observe ::
  "('s, 'm) nstep_params_scheme \<Rightarrow> ('s, 'a, 'r) rl_functions \<Rightarrow> ('s, 'a, 'r) nstep_state
     \<Rightarrow> py_error + ('s, 'a, 'r) nstep_state" where
  "nstep_observe p f st =
     (if ns_t st < ns_T st then
        (case get_random_action f None (ns_rng st) of (action, r') \<Rightarrow>
           (let next_state = new_state_given_action (ns_env st) (ns_state st) action in
            bind_err (grid_at (ns_env st) next_state) (\<lambda>v.
              (let rwd = v + step_cost p;
                   st1 = st\<lparr> ns_next_state := Some next_state,
                             ns_states := ns_states st @ [ns_state st],
                             ns_rewards := ns_rewards st @ [rwd],
                             ns_rng := r' \<rparr>
               in if is_terminal_state (ns_env st) (ns_state st)
                  then Inr (st1\<lparr> ns_T := ns_t st + 1, ns_done := True \<rparr>)
                  else Inr st1))))
      else Inr st)"

text \<open>Lines 305-307: the return \<open>G\<close> used for the state visited at time \<open>r\<close>.\<close>

definition nstep_return ::
  "('s, 'm) nstep_params_scheme \<Rightarrow> ('s, 'a, 'r) nstep_state \<Rightarrow> int \<Rightarrow> py_error + real" where
  "nstep_return p st r =
     bind_err (map_err (\<lambda>x. bind_err (py_index (ns_rewards st) x) (\<lambda>rw.
                              bind_err (py_pow (gamma p) (r - x)) (\<lambda>g. Inr (rw * g))))
                 (py_range r (min (r + n_step p) (ns_T st)))) (\<lambda>terms.
       (let G = foldl (+) 0 terms in
        if r + n_step p < ns_T st then
          bind_err (py_pow (gamma p) (n_step p)) (\<lambda>g.
          bind_err (py_index (ns_states st) (r + n_step p - 1)) (\<lambda>s.
          bind_err (grid_at (ns_env st) s) (\<lambda>v. Inr (G + g * v))))
        else Inr G))"

text \<open>Lines 303-311: the delayed update.\<close>

definition nstep_update ::
  "('s, 'm) nstep_params_scheme \<Rightarrow> ('s, 'a, 'r) nstep_state
     \<Rightarrow> py_error + ('s, 'a, 'r) nstep_state" where
  "nstep_update p st =
     (let r = ns_t st - n_step p + 1 in
      if 0 \<le> r then
        bind_err (nstep_return p st r) (\<lambda>G.
          if \<not> is_terminal_state (ns_env st) (ns_state st) then
            bind_err (py_index (ns_states st) r) (\<lambda>s.
            bind_err (grid_at (ns_env st) s) (\<lambda>v.
            bind_err (grid_at (ns_env st) s) (\<lambda>v2.
              Inr (st\<lparr> ns_env := (ns_env st)\<lparr> grid :=
                     (grid (ns_env st))(s \<mapsto> v + alpha p * (G - v2)) \<rparr> \<rparr>))))
          else Inr st)
      else Inr st)"

text \<open>Lines 313-317: the exit test on \<open>r\<close>, then \<open>t += 1\<close> and \<open>state = next_state\<close>.\<close>

definition nstep_advance ::
  "('s, 'm) nstep_params_scheme \<Rightarrow> ('s, 'a, 'r) nstep_state
     \<Rightarrow> py_error + ('s, 'a, 'r) nstep_state" where
  "nstep_advance p st =
     (let r = ns_t st - n_step p + 1;
          st1 = (if r = ns_T st - 1 then st\<lparr> ns_done := True \<rparr> else st)
      in case ns_next_state st1 of
           None \<Rightarrow> Inl TypeError
         | Some nxt \<Rightarrow> Inr (st1\<lparr> ns_t := ns_t st1 + 1, ns_state := nxt \<rparr>))"

definition nstep_body ::
  "('s, 'm) nstep_params_scheme \<Rightarrow> ('s, 'a, 'r) rl_functions \<Rightarrow> ('s, 'a, 'r) nstep_state
     \<Rightarrow> py_error + ('s, 'a, 'r) nstep_state" where
  "nstep_body p f st =
     bind_err (nstep_observe p f st) (\<lambda>st1.
     bind_err (nstep_update p st1) (\<lambda>st2. nstep_advance p st2))"

partial_function (option) nstep_loop ::
  "('s, 'm) nstep_params_scheme \<Rightarrow> ('s, 'a, 'r) rl_functions \<Rightarrow> ('s, 'a, 'r) nstep_state
     \<Rightarrow> (py_error + ('s, 'a, 'r) nstep_state) option" where
  "nstep_loop p f st =
     (if \<not> ns_done st
      then (case nstep_body p f st of
              Inl err \<Rightarrow> Some (Inl err)
            | Inr st' \<Rightarrow> nstep_loop p f st')
      else Some (Inr st))"

declare nstep_loop.simps [code]

text \<open>Lines 285-289: the start of an epoch.\<close>

definition nstep_init :: "('s, 'a) env \<Rightarrow> 's \<Rightarrow> 'r \<Rightarrow> ('s, 'a, 'r) nstep_state" where
  "nstep_init e s r =
     \<lparr> ns_env = e, ns_T = 100000, ns_t = 0, ns_states = [], ns_rewards = [],
       ns_state = s, ns_next_state = None, ns_done = False, ns_rng = r \<rparr>"

definition nstep_epoch ::
  "('s, 'm) nstep_params_scheme \<Rightarrow> ('s, 'a, 'r) rl_functions \<Rightarrow> ('s, 'a) env \<times> 'r
     \<Rightarrow> (py_error + ('s, 'a) env \<times> 'r) option" where
  "nstep_epoch p f = (\<lambda>(e, r).
     case starting_state p of
       None \<Rightarrow> Some (Inl TypeError)
     | Some s \<Rightarrow>
        (case nstep_loop p f (nstep_init e s r) of
           None \<Rightarrow> None
         | Some (Inl err) \<Rightarrow> Some (Inl err)
         | Some (Inr st) \<Rightarrow> Some (Inr (ns_env st, ns_rng st))))"

definition nstep_compute_state_value ::
  "('s, 'm) nstep_params_scheme \<Rightarrow> ('s, 'a, 'r) rl_functions \<Rightarrow> ('s, 'a) env \<Rightarrow> 'r
     \<Rightarrow> (py_error + ('s, 'a) env \<times> 'r) option" where
  "nstep_compute_state_value p f e r =
     for_range_partial (num_of_epochs p) (nstep_epoch p f) (e, r)"

subsection \<open>Action selection (TD.py, lines 49-56)\<close>

text \<open>
  \<open>np.argmax\<close> scans from the left and keeps the first largest entry; it raises on an
  empty sequence. \<open>q_row\<close> is \<open>Q.loc[state, :]\<close>, the row of \<open>state\<close> in column
  order.
\<close>

fun argmax_scan :: "real list \<Rightarrow> nat \<Rightarrow> real \<Rightarrow> nat \<Rightarrow> nat" where
  "argmax_scan [] i best best_i = best_i"
| "argmax_scan (v # vs) i best best_i =
     (if best < v then argmax_scan vs (Suc i) v i else argmax_scan vs (Suc i) best best_i)"

fun np_argmax :: "real list \<Rightarrow> py_error + nat" where
  "np_argmax [] = Inl ValueError"
| "np_argmax (v # vs) = Inr (argmax_scan vs 1 v 0)"

definition q_row :: "('s, 'a) env \<Rightarrow> ('s, 'a) qtable \<Rightarrow> 's \<Rightarrow> py_error + real list" where
  "q_row e q state = map_err (q_at q state) (possible_actions e)"

definition greedy_action ::
  "('s, 'a) env \<Rightarrow> ('s, 'a) qtable \<Rightarrow> 's \<Rightarrow> py_error + 'a" where
  "greedy_action e q state =
     bind_err (q_row e q state) (\<lambda>row.
     bind_err (np_argmax row) (\<lambda>i. py_index (possible_actions e) (int i)))"

definition select_action ::
  "('s, 'a) env \<Rightarrow> ('s, 'm) control_params_scheme \<Rightarrow> ('s, 'a, 'r) rl_functions \<Rightarrow> 's
     \<Rightarrow> ('s, 'a) qtable \<Rightarrow> 'r \<Rightarrow> py_error + ('a \<times> 'r)" where
  "select_action e p f state q r =
     (case rand f r of (u, r1) \<Rightarrow>
        if u < epsilon p then Inr (get_random_action f (Some state) r1)
        else bind_err (greedy_action e q state) (\<lambda>a. Inr (a, r1)))"

subsection \<open>Double Q-learning and Dyna-Q (TD.py, lines 351-455)\<close>

text \<open>
  Modelled from the spec: the environment class is not among the source files. An
  environment that provides exactly the consumed contract of the specification answers
  the seven attribute names below and no other; looking up any other name on it raises
  \<open>AttributeError\<close>, as Python does for an attribute an object does not have.
\<close>

datatype ('s, 'a) attribute =
    Actions "'a list"
  | States "'s list"
  | Start "'s option"
  | Predicate "'s \<Rightarrow> bool"
  | Transition "'s \<Rightarrow> 'a \<Rightarrow> 's"
  | Table "'s \<Rightarrow> real option"

definition env_getattr :: "('s, 'a) env \<Rightarrow> string \<Rightarrow> py_error + ('s, 'a) attribute" where
  "env_getattr e name =
     (if name = ''possible_actions'' then Inr (Actions (possible_actions e))
      else if name = ''all_states'' then Inr (States (all_states e))
      else if name = ''available_states'' then Inr (States (available_states e))
      else if name = ''initial_state'' then Inr (Start (initial_state e))
      else if name = ''is_terminal_state'' then Inr (Predicate (is_terminal_state e))
      else if name = ''new_state_given_action'' then Inr (Transition (new_state_given_action e))
      else if name = ''grid'' then Inr (Table (grid e))
      else Inl (AttributeError name))"

text \<open>Calling the attribute \<open>name\<close> of the environment on a state and an action.\<close>

definition env_call ::
  "('s, 'a) env \<Rightarrow> string \<Rightarrow> 's \<Rightarrow> 'a \<Rightarrow> py_error + 's" where
  "env_call e name state action =
     bind_err (env_getattr e name) (\<lambda>att.
       case att of Transition t \<Rightarrow> Inr (t state action) | _ \<Rightarrow> Inl TypeError)"

text \<open>\<open>(Q1 + Q2) / 2\<close>, entry by entry.\<close>

definition q_average :: "('s, 'a) qtable \<Rightarrow> ('s, 'a) qtable \<Rightarrow> ('s, 'a) qtable" where
  "q_average q1 q2 = (\<lambda>k. case (q1 k, q2 k) of
                          (Some v1, Some v2) \<Rightarrow> Some ((v1 + v2) / 2)
                        | _ \<Rightarrow> None)"

record ('s, 'a, 'r) double_q_state =
  dq_Q1 :: "('s, 'a) qtable"
  dq_Q2 :: "('s, 'a) qtable"
  dq_state :: 's
  dq_action :: 'a
  dq_num_of_steps :: nat
  dq_rng :: 'r

text \<open>
  Lines 377-380 and 388-391: the table \<open>qa\<close> is updated at \<open>(state, action)\<close> with
  the other table \<open>qb\<close> read at the action that is greedy for \<open>qa\<close> in \<open>state\<close>.
\<close>

definition double_q_update ::
  "('s, 'a) env \<Rightarrow> ('s, 'm) control_params_scheme \<Rightarrow> ('s, 'a) qtable \<Rightarrow> ('s, 'a) qtable
     \<Rightarrow> 's \<Rightarrow> 'a \<Rightarrow> real \<Rightarrow> 's \<Rightarrow> py_error + ('s, 'a) qtable" where
  "double_q_update e p qa qb state action rwd next_state =
     bind_err (greedy_action e qa state) (\<lambda>best_action.
     bind_err (q_at qb next_state best_action) (\<lambda>v.
       (let td_target = rwd + gamma p * v in
        bind_err (q_at qa state action) (\<lambda>old.
          (let td_error = td_target - old in
           bind_err (q_at qa state action) (\<lambda>old2.
             Inr (qa((state, action) \<mapsto> old2 + alpha p * td_error))))))))"

text \<open>The body of the \<open>while\<close> loop, lines 371-402.\<close>

definition double_q_step ::
  "('s, 'a) env \<Rightarrow> ('s, 'm) control_params_scheme \<Rightarrow> ('s, 'a, 'r) rl_functions
     \<Rightarrow> ('s, 'a, 'r) double_q_state \<Rightarrow> py_error + ('s, 'a, 'r) double_q_state" where
  "double_q_step e p f st =
     bind_err (env_call e ''next_state_given_action'' (dq_state st) (dq_action st)) (\<lambda>next_state.
     bind_err (select_action e p f next_state (q_average (dq_Q1 st) (dq_Q2 st)) (dq_rng st))
       (\<lambda>(next_action, r1).
     bind_err (grid_at e next_state) (\<lambda>rwd.
       (case randint f 2 r1 of (coin, r2) \<Rightarrow>
          bind_err
            (if coin \<noteq> 0 then
               bind_err (double_q_update e p (dq_Q1 st) (dq_Q2 st) (dq_state st) (dq_action st)
                           rwd next_state) (\<lambda>q1. Inr (q1, dq_Q2 st))
             else
               bind_err (double_q_update e p (dq_Q2 st) (dq_Q1 st) (dq_state st) (dq_action st)
                           rwd next_state) (\<lambda>q2. Inr (dq_Q1 st, q2)))
            (\<lambda>(q1, q2).
               Inr \<lparr> dq_Q1 = q1, dq_Q2 = q2, dq_state = next_state, dq_action = next_action,
                     dq_num_of_steps = dq_num_of_steps st + 1, dq_rng = r2 \<rparr>)))))"

function double_q_loop ::
  "('s, 'a) env \<Rightarrow> ('s, 'm) control_params_scheme \<Rightarrow> ('s, 'a, 'r) rl_functions
     \<Rightarrow> ('s, 'a, 'r) double_q_state \<Rightarrow> py_error + ('s, 'a, 'r) double_q_state" where
  "double_q_loop e p f st =
     (if \<not> is_terminal_state e (dq_state st) \<and> int (dq_num_of_steps st) < num_episodes p
      then (case double_q_step e p f st of
              Inl err \<Rightarrow> Inl err
            | Inr st' \<Rightarrow> double_q_loop e p f st')
      else Inr st)"
  by pat_completeness auto
termination
  apply (relation "measure (\<lambda>(e, p, f, st). nat (num_episodes p - int (dq_num_of_steps st)))")
   apply simp
  apply (auto simp: double_q_step_def bind_err_def split: prod.splits sum.splits if_splits)
  done

declare double_q_loop.simps [simp del]

text \<open>\<open>k\<close> passes through the body of the loop, one after another.\<close>

fun double_q_steps ::
  "nat \<Rightarrow> ('s, 'a) env \<Rightarrow> ('s, 'm) control_params_scheme \<Rightarrow> ('s, 'a, 'r) rl_functions
     \<Rightarrow> ('s, 'a, 'r) double_q_state \<Rightarrow> py_error + ('s, 'a, 'r) double_q_state" where
  "double_q_steps 0 e p f st = Inr st"
| "double_q_steps (Suc k) e p f st = bind_err (double_q_step e p f st) (double_q_steps k e p f)"

text \<open>One epoch, lines 360-403.\<close>

definition double_q_epoch ::
  "('s, 'a) env \<Rightarrow> ('s, 'm) control_params_scheme \<Rightarrow> ('s, 'a, 'r) rl_functions
     \<Rightarrow> ('s, 'a) qtable \<times> ('s, 'a) qtable \<times> 'r
     \<Rightarrow> py_error + (('s, 'a) qtable \<times> ('s, 'a) qtable \<times> 'r)" where
  "double_q_epoch e p f = (\<lambda>(q1, q2, r).
     bind_err (case starting_state p of
                 None \<Rightarrow> random_choice f IndexError (available_states e) r
               | Some s \<Rightarrow> Inr (s, r)) (\<lambda>(s, r1).
     bind_err (select_action e p f s (q_average q1 q2) r1) (\<lambda>(a, r2).
     bind_err (double_q_loop e p f
                 \<lparr> dq_Q1 = q1, dq_Q2 = q2, dq_state = s, dq_action = a,
                   dq_num_of_steps = 0, dq_rng = r2 \<rparr>) (\<lambda>st.
       Inr (dq_Q1 st, dq_Q2 st, dq_rng st)))))"

definition double_q_compute_state_value ::
  "('s, 'a) env \<Rightarrow> ('s, 'm) control_params_scheme \<Rightarrow> ('s, 'a, 'r) rl_functions \<Rightarrow> 'r
     \<Rightarrow> py_error + (('s, 'a) qtable \<times> ('s, 'a) qtable \<times> 'r)" where
  "double_q_compute_state_value e p f r =
     for_range (num_of_epochs p) (double_q_epoch e p f) (get_q_df e, get_q_df e, r)"

text \<open>
  \<open>TabularDynaQ.compute_state_value\<close> breaks off after line 455. These are the three
  statements of its loop body that the source has (lines 453-455).
\<close>

definition dyna_q_step_begin ::
  "('s, 'a) env \<Rightarrow> ('s, 'm) control_params_scheme \<Rightarrow> ('s, 'a, 'r) rl_functions
     \<Rightarrow> ('s, 'a) qtable \<Rightarrow> 's \<Rightarrow> 'a \<Rightarrow> 'r \<Rightarrow> py_error + ('s \<times> 'a \<times> real \<times> 'r)" where
  "dyna_q_step_begin e p f q state action r =
     bind_err (env_call e ''next_state_given_action'' state action) (\<lambda>next_state.
     bind_err (select_action e p f next_state q r) (\<lambda>(next_action, r1).
     bind_err (grid_at e next_state) (\<lambda>rwd. Inr (next_state, next_action, rwd, r1))))"

subsection \<open>Bandits (bandit.py)\<close>

text \<open>
  \<open>bandit_df\<close> has one column per arm, in the order of \<open>bandit_name\<close>, and the
  four rows \<open>mean\<close>, \<open>sd\<close>, \<open>action_count\<close> and \<open>q_estimation\<close>. The
  chained assignments \<open>bandit_df[action]['action_count'] += 1\<close> are taken to reach the
  frame itself, which is what the learners rely on.
\<close>

record arm =
  mean :: real
  sd :: real
  action_count :: real
  q_estimation :: real

type_synonym 'n bandit_df = "('n \<times> arm) list"

definition df_column :: "'n bandit_df \<Rightarrow> 'n \<Rightarrow> py_error + arm" where
  "df_column df action = (case map_of df action of None \<Rightarrow> Inl KeyError | Some c \<Rightarrow> Inr c)"

definition df_assign :: "'n bandit_df \<Rightarrow> 'n \<Rightarrow> arm \<Rightarrow> 'n bandit_df" where
  "df_assign df action c = map (\<lambda>(n, old). if n = action then (n, c) else (n, old)) df"

text \<open>
  The instance fields of \<open>Greedy\<close> and \<open>UCB\<close>; \<open>epsilon_b\<close> is the field
  \<open>epsilon\<close> of \<open>Greedy\<close>.
\<close>

record learner =
  sample_averages :: bool
  step_size :: real

record greedy = learner +
  epsilon_b :: real

record ucb = learner +
  UCB_param :: real

text \<open>
  \<open>np.random.normal(mean, sd)\<close> is \<open>mean + sd * z\<close> for a standard normal draw
  \<open>z\<close>, and raises on a negative \<open>sd\<close>.
\<close>

definition random_normal ::
  "('s, 'a, 'r) rl_functions \<Rightarrow> real \<Rightarrow> real \<Rightarrow> 'r \<Rightarrow> py_error + (real \<times> 'r)" where
  "random_normal f m s r =
     (if s < 0 then Inl ValueError
      else (case standard_normal f r of (z, r') \<Rightarrow> Inr (m + s * z, r')))"

text \<open>The columns whose entry in \<open>vals\<close> equals the largest entry.\<close>

definition maximizers :: "'n list \<Rightarrow> real list \<Rightarrow> 'n list" where
  "maximizers names vals =
     (case vals of
        [] \<Rightarrow> []
      | v # vs \<Rightarrow> map fst (filter (\<lambda>(n, x). x = foldl max v vs) (zip names vals)))"

text \<open>
  Lines 80-81: the index of
  \<open>q_estimation[q_estimation == q_estimation.max()]\<close>, the arms whose estimate is the
  largest.
\<close>

definition q_maximizers :: "'n bandit_df \<Rightarrow> 'n list" where
  "q_maximizers df = maximizers (map fst df) (map (\<lambda>(n, c). q_estimation c) df)"

text \<open>\<open>Greedy._act\<close>, lines 77-81.\<close>

definition greedy_act ::
  "greedy \<Rightarrow> ('s, 'a, 'r) rl_functions \<Rightarrow> 'n bandit_df \<Rightarrow> 'r \<Rightarrow> py_error + ('n \<times> 'r)" where
  "greedy_act g f df r =
     (case rand f r of (u, r1) \<Rightarrow>
        if u < epsilon_b g then random_choice f ValueError (map fst df) r1
        else random_choice f ValueError (q_maximizers df) r1)"

text \<open>\<open>Greedy._step\<close>, lines 88-102.\<close>

definition greedy_step ::
  "greedy \<Rightarrow> ('s, 'a, 'r) rl_functions \<Rightarrow> 'n \<Rightarrow> 'n bandit_df \<Rightarrow> 'r
     \<Rightarrow> py_error + ('n bandit_df \<times> 'r)" where
  "greedy_step g f action df r =
     bind_err (df_column df action) (\<lambda>c.
     bind_err (random_normal f (mean c) (sd c) r) (\<lambda>(rwd, r').
       (let c1 = c\<lparr> action_count := action_count c + 1 \<rparr>;
            c2 = (if sample_averages g
                  then c1\<lparr> q_estimation :=
                            q_estimation c1 + (rwd - q_estimation c1) / action_count c1 \<rparr>
                  else c1\<lparr> q_estimation :=
                            q_estimation c1 + step_size g * (rwd - q_estimation c1) \<rparr>)
        in Inr (df_assign df action c2, r'))))"

text \<open>\<open>bandit_df.idxmax(axis=1)['mean']\<close>: the first column with the largest mean.\<close>

definition idxmax_mean :: "'n bandit_df \<Rightarrow> py_error + 'n" where
  "idxmax_mean df =
     bind_err (np_argmax (map (\<lambda>(n, c). mean c) df)) (\<lambda>i. py_index (map fst df) (int i))"

text \<open>
  The variables of \<open>simulate\<close>: the frame, \<open>best_action_count\<close>,
  \<open>best_action_percentage\<close> and the generators.
\<close>

type_synonym ('n, 'r) sim_state = "'n bandit_df \<times> nat \<times> real list \<times> 'r"

text \<open>Lines 113-115: the bookkeeping after a step; \<open>num\<close> is the loop index.\<close>

definition record_best ::
  "'n \<Rightarrow> nat \<Rightarrow> 'n bandit_df \<Rightarrow> nat \<Rightarrow> real list \<Rightarrow> py_error + (nat \<times> real list)" where
  "record_best action num df best_action_count best_action_percentage =
     bind_err (idxmax_mean df) (\<lambda>best.
       if action = best then
         (let best_action_count1 = best_action_count + 1 in
          Inr (best_action_count1,
               best_action_percentage @ [real best_action_count1 / real (num + 1)]))
       else Inr (best_action_count, best_action_percentage))"

text \<open>The body of the loop of \<open>Greedy.simulate\<close>, lines 111-115.\<close>

definition greedy_simulate_body ::
  "greedy \<Rightarrow> ('s, 'a, 'r) rl_functions \<Rightarrow> nat \<Rightarrow> ('n, 'r) sim_state
     \<Rightarrow> py_error + ('n, 'r) sim_state" where
  "greedy_simulate_body g f num = (\<lambda>(df, cnt, pct, r).
     bind_err (greedy_act g f df r) (\<lambda>(action, r1).
     bind_err (greedy_step g f action df r1) (\<lambda>(df1, r2).
     bind_err (record_best action num df1 cnt pct) (\<lambda>(cnt1, pct1).
       Inr (df1, cnt1, pct1, r2)))))"

text \<open>\<open>for num in xs\<close> over a body that may raise.\<close>

fun for_each :: "'i list \<Rightarrow> ('i \<Rightarrow> 'x \<Rightarrow> py_error + 'x) \<Rightarrow> 'x \<Rightarrow> py_error + 'x" where
  "for_each [] body x = Inr x"
| "for_each (i # is) body x = bind_err (body i x) (for_each is body)"

text \<open>
  \<open>Greedy.simulate\<close>, lines 108-116: the result is the frame, the stored series
  \<open>self.best_action_percentage\<close>, and the generators.
\<close>

definition greedy_simulate ::
  "greedy \<Rightarrow> ('s, 'a, 'r) rl_functions \<Rightarrow> nat \<Rightarrow> 'n bandit_df \<Rightarrow> 'r
     \<Rightarrow> py_error + ('n bandit_df \<times> real list \<times> 'r)" where
  "greedy_simulate g f time df r =
     bind_err (for_each [0..<time] (greedy_simulate_body g f) (df, 0, [], r))
       (\<lambda>(df', cnt, pct, r'). Inr (df', pct, r'))"

text \<open>\<open>UCB._act\<close>, lines 141-145.\<close>

definition UCB_estimation :: "ucb \<Rightarrow> nat \<Rightarrow> 'n bandit_df \<Rightarrow> real list" where
  "UCB_estimation u num df =
     map (\<lambda>(n, c). q_estimation c +
            UCB_param u * sqrt (ln (real num + 1) / (action_count c + 1 / 100000))) df"

definition ucb_act ::
  "ucb \<Rightarrow> ('s, 'a, 'r) rl_functions \<Rightarrow> nat \<Rightarrow> 'n bandit_df \<Rightarrow> 'r \<Rightarrow> py_error + ('n \<times> 'r)" where
  "ucb_act u f num df r =
     bind_err (random_choice f ValueError
                 (maximizers [0..<length df] (UCB_estimation u num df)) r) (\<lambda>(i, r1).
     bind_err (py_index (map fst df) (int i)) (\<lambda>n. Inr (n, r1)))"

text \<open>\<open>UCB._step\<close>, lines 152-166.\<close>

definition ucb_step ::
  "ucb \<Rightarrow> ('s, 'a, 'r) rl_functions \<Rightarrow> 'n \<Rightarrow> 'n bandit_df \<Rightarrow> 'r
     \<Rightarrow> py_error + ('n bandit_df \<times> 'r)" where
  "ucb_step u f action df r =
     bind_err (df_column df action) (\<lambda>c.
     bind_err (random_normal f (mean c) (sd c) r) (\<lambda>(rwd, r').
       (let c1 = c\<lparr> action_count := action_count c + 1 \<rparr>;
            c2 = (if sample_averages u
                  then c1\<lparr> q_estimation :=
                            q_estimation c1 + (rwd - q_estimation c1) / action_count c1 \<rparr>
                  else c1\<lparr> q_estimation :=
                            q_estimation c1 + step_size u * (rwd - q_estimation c1) \<rparr>)
        in Inr (df_assign df action c2, r'))))"

text \<open>\<open>UCB.simulate\<close>, lines 172-180.\<close>

definition ucb_simulate_body ::
  "ucb \<Rightarrow> ('s, 'a, 'r) rl_functions \<Rightarrow> nat \<Rightarrow> ('n, 'r) sim_state
     \<Rightarrow> py_error + ('n, 'r) sim_state" where
  "ucb_simulate_body u f num = (\<lambda>(df, cnt, pct, r).
     bind_err (ucb_act u f num df r) (\<lambda>(action, r1).
     bind_err (ucb_step u f action df r1) (\<lambda>(df1, r2).
     bind_err (record_best action num df1 cnt pct) (\<lambda>(cnt1, pct1).
       Inr (df1, cnt1, pct1, r2)))))"

definition ucb_simulate ::
  "ucb \<Rightarrow> ('s, 'a, 'r) rl_functions \<Rightarrow> nat \<Rightarrow> 'n bandit_df \<Rightarrow> 'r
     \<Rightarrow> py_error + ('n bandit_df \<times> real list \<times> 'r)" where
  "ucb_simulate u f time df r =
     bind_err (for_each [0..<time] (ucb_simulate_body u f) (df, 0, [], r))
       (\<lambda>(df', cnt, pct, r'). Inr (df', pct, r'))"

subsection \<open>A corridor environment and a replayed random tape\<close>

text \<open>
  The concrete inputs of the examples below: a corridor of three cells with the terminal
  cell at the right end and the value \<open>-1\<close> on the two other cells, and generators that replay a list of numbers, one per draw
  (\<open>0\<close> once the list is used up).
\<close>

datatype move = Left | Right

definition corridor :: "(nat, move) env" where
  "corridor =
     \<lparr> possible_actions = [Left, Right],
       all_states = [0, 1, 2],
       available_states = [0, 1],
       initial_state = Some 0,
       is_terminal_state = (\<lambda>s. s = 2),
       new_state_given_action = (\<lambda>s a. case a of Left \<Rightarrow> s - 1 | Right \<Rightarrow> min 2 (s + 1)),
       grid = (\<lambda>s. if s < 2 then Some (- 1) else if s = 2 then Some 0 else None) \<rparr>"

definition pop :: "nat list \<Rightarrow> nat \<times> nat list" where
  "pop r = (case r of [] \<Rightarrow> (0, []) | x # xs \<Rightarrow> (x, xs))"

definition tape :: "(nat, move, nat list) rl_functions" where
  "tape =
     \<lparr> get_random_action = (\<lambda>s r. case pop r of (x, r') \<Rightarrow> (if x = 0 then Left else Right, r')),
       epsilon_greedy = (\<lambda>a r. case pop r of (x, r') \<Rightarrow>
                           (if x = 0 then a else if x = 1 then Left else Right, r')),
       rand = (\<lambda>r. case pop r of (x, r') \<Rightarrow> (real x / 10, r')),
       randint = (\<lambda>n r. case pop r of (x, r') \<Rightarrow> (x mod n, r')),
       standard_normal = (\<lambda>r. case pop r of (x, r') \<Rightarrow> (real x, r')) \<rparr>"

definition control_run :: "nat control_params" where
  "control_run =
     \<lparr> alpha = 1 / 2, gamma = 1 / 2, starting_state = Some 0, num_of_epochs = 2,
       epsilon = 0, num_episodes = 3 \<rparr>"

definition td0_run :: "nat td0_params" where
  "td0_run =
     \<lparr> alpha = 1 / 2, gamma = 1 / 2, starting_state = Some 0, num_of_epochs = 1,
       reward = - 1 \<rparr>"

definition nstep_run :: "int \<Rightarrow> nat nstep_params" where
  "nstep_run n =
     \<lparr> alpha = 1 / 2, gamma = 1 / 2, starting_state = Some 0, num_of_epochs = 1,
       step_cost = - 1, n_step = n \<rparr>"

definition q_example :: "(nat, move) qtable" where
  "q_example = (get_q_df corridor)((0, Right) \<mapsto> 1, (1, Left) \<mapsto> 1, (1, Right) \<mapsto> 3)"

definition control_start :: "(nat, move, nat list) td_state" where
  "control_start =
     \<lparr> q_values_df = get_q_df corridor,
       state_action_pairs = [0 \<mapsto> Right, 1 \<mapsto> Right, 2 \<mapsto> Right],
       st_state = 0, st_action = Right, num_of_steps = 0, rng = [] \<rparr>"

definition double_q_start :: "(nat, move, nat list) double_q_state" where
  "double_q_start =
     \<lparr> dq_Q1 = get_q_df corridor, dq_Q2 = get_q_df corridor, dq_state = 0, dq_action = Right,
       dq_num_of_steps = 0, dq_rng = [] \<rparr>"



text \<open>
  The loop states of TD(0) on the corridor from which every draw is \<open>Left\<close>: the walk
  is in cell 0, which \<open>Left\<close> does not leave.
\<close>

definition stuck :: "(nat, move, nat list) td0_state \<Rightarrow> bool" where
  "stuck = (\<lambda>(e, s, d, r). s = 0 \<and> \<not> d \<and> r = [] \<and>
      new_state_given_action e = new_state_given_action corridor \<and>
      is_terminal_state e = is_terminal_state corridor \<and> grid e 0 \<noteq> None)"

text \<open>What a prediction run leaves behind: the grid over \<open>all_states\<close>, and the tape.\<close>

definition run_result ::
  "(py_error + ('s, 'a) env \<times> 'r) option \<Rightarrow> (py_error + real option list \<times> 'r) option" where
  "run_result = map_option (map_sum (\<lambda>err. err) (\<lambda>(e, r). (map (grid e) (all_states e), r)))"

text \<open>
  The variables of the n-step loop on the corridor at \<open>t = 1\<close>, after two steps to
  the right have been observed.
\<close>

definition nstep_example :: "(nat, move, nat list) nstep_state" where
  "nstep_example =
     \<lparr> ns_env = corridor, ns_T = 100000, ns_t = 1, ns_states = [0, 1],
       ns_rewards = [- 2, - 1], ns_state = 1, ns_next_state = Some 2, ns_done = False,
       ns_rng = [] \<rparr>"

text \<open>The variables of the n-step loop that can be compared by evaluation.\<close>

definition nstep_view ::
  "('s, 'a, 'r) nstep_state
     \<Rightarrow> int \<times> int \<times> 's list \<times> real list \<times> 's \<times> 's option \<times> bool \<times> 'r \<times> real option list" where
  "nstep_view st =
     (ns_T st, ns_t st, ns_states st, ns_rewards st, ns_state st, ns_next_state st,
      ns_done st, ns_rng st, map (grid (ns_env st)) (all_states (ns_env st)))"

text \<open>
  The n-step return in the words of the specification, for the state visited at time
  \<open>t\<close> when the trajectory has not ended within the window: the sum over
  \<open>k = 0..n-1\<close> of \<open>gamma^k * r_{t+k+1}\<close>, plus \<open>gamma^n * V[s_{t+n}]\<close>.
  \<open>rewards ! (t + k)\<close> is the reward \<open>r_{t+k+1}\<close> of the step out of \<open>s_{t+k}\<close>.
\<close>

definition spec_nstep_return ::
  "real \<Rightarrow> nat \<Rightarrow> real list \<Rightarrow> ('s \<Rightarrow> real option) \<Rightarrow> 's \<Rightarrow> nat \<Rightarrow> real" where
  "spec_nstep_return g n rewards V s_ahead t =
     sum_list (map (\<lambda>k. g ^ k * rewards ! (t + k)) [0..<n]) + g ^ n * the (V s_ahead)"

text \<open>A bandit of two arms, the second with the larger mean, and two learners.\<close>

definition two_arms :: "string bandit_df" where
  "two_arms =
     [(''A'', \<lparr> mean = 0, sd = 1, action_count = 0, q_estimation = 0 \<rparr>),
      (''B'', \<lparr> mean = 1, sd = 1, action_count = 0, q_estimation = 0 \<rparr>)]"

definition pure_greedy :: greedy where
  "pure_greedy = \<lparr> sample_averages = True, step_size = 1 / 10, epsilon_b = 0 \<rparr>"

definition ucb_run :: ucb where
  "ucb_run = \<lparr> sample_averages = True, step_size = 1 / 10, UCB_param = 1 / 10 \<rparr>"

text \<open>
  The series of the specification for a sequence of chosen arms: one entry per step, the
  \<open>k\<close>-th being the share of the first \<open>k\<close> steps that chose the arm \<open>best\<close>.
\<close>

definition spec_best_action_percentage :: "'n list \<Rightarrow> 'n \<Rightarrow> real list" where
  "spec_best_action_percentage chosen best =
     map (\<lambda>k. real (length (filter (\<lambda>a. a = best) (take k chosen))) / real k)
       [1..<length chosen + 1]"

text \<open>
  The ground truth of a frame, its rows \<open>mean\<close> and \<open>sd\<close> under the column names;
  and the columns of the arms other than \<open>action\<close>.
\<close>

definition truth :: "'n bandit_df \<Rightarrow> ('n \<times> real \<times> real) list" where
  "truth df = map (\<lambda>(n, c). (n, mean c, sd c)) df"

definition other_arms :: "'n \<Rightarrow> 'n bandit_df \<Rightarrow> 'n bandit_df" where
  "other_arms action df = filter (\<lambda>(n, c). n \<noteq> action) df"

section \<open>Properties\<close>

subsection \<open>Helper facts\<close>

lemma bind_err_Inr_iff:
  "bind_err m f = Inr y \<longleftrightarrow> (\<exists>x. m = Inr x \<and> f x = Inr y)"
  by (cases m) (simp_all add: bind_err_def)

lemma q_at_Inr_iff: "q_at q s a = Inr v \<longleftrightarrow> q (s, a) = Some v"
  by (simp add: q_at_def split: option.splits)

lemma map_err_Inr_iff:
  "map_err f xs = Inr ys \<longleftrightarrow> length ys = length xs \<and> (\<forall>i < length xs. f (xs ! i) = Inr (ys ! i))"
proof (induction xs arbitrary: ys)
  case Nil
  then show ?case by auto
next
  case (Cons x xs)
  show ?case
  proof (cases ys)
    case Nil
    then show ?thesis by (auto simp: bind_err_Inr_iff)
  next
    case (Cons y ys')
    then show ?thesis
      by (auto simp: bind_err_Inr_iff Cons.IH less_Suc_eq_0_disj)
  qed
qed

lemma foldl_max_eq_Max: "foldl max (v :: real) vs = Max (set (v # vs))"
proof (induction vs arbitrary: v)
  case Nil
  then show ?case by simp
next
  case (Cons w ws)
  have "Max (insert v (insert w (set ws))) = max v (Max (insert w (set ws)))"
    by (rule Max_insert) simp_all
  also have "\<dots> = Max (insert (max v w) (set ws))"
    by (cases "set ws = {}") (simp_all add: max.assoc)
  finally show ?case using Cons.IH [of "max v w"] by simp
qed

lemma py_max_Inr_iff: "py_max vs = Inr m \<longleftrightarrow> vs \<noteq> [] \<and> m = Max (set vs)"
  by (cases vs) (auto simp: foldl_max_eq_Max)

lemma map_err_q_at_Inr:
  "map_err (q_at q s) xs = Inr row \<Longrightarrow> row = map (\<lambda>x. the (q (s, x))) xs"
  by (auto simp: map_err_Inr_iff q_at_Inr_iff intro!: nth_equalityI)

lemma algo_frame:
  "algo rule e p q s a rw s' a' = Inr q' \<Longrightarrow> k \<noteq> (s, a) \<Longrightarrow> q' k = q k"
  by (cases rule)
     (auto simp: algo_def sarsa_formula_def q_learning_formula_def bind_err_Inr_iff)

subsection \<open>The update rules\<close>

text \<open>
  C1. When \<open>sarsa_formula\<close> returns, the entry of \<open>(s, a)\<close> is
  \<open>old + alpha * (target - old)\<close> with the target \<open>r + gamma * Q[s', a']\<close>, and every
  other entry is as before. When \<open>q_learning_formula\<close> returns, the entry is
  \<open>old + alpha * (target - old)\<close> with the target \<open>r + gamma * max\<close>, the maximum
  of the row of \<open>s'\<close> over all of \<open>possible_actions\<close>; every other entry is as
  before, and the result is the same whatever next action is passed.
\<close>

theorem update_rules_exact:
  "(sarsa_formula p q s a r s' a' = Inr q1 \<longrightarrow>
      (\<exists>old nxt. q (s, a) = Some old \<and> q (s', a') = Some nxt \<and>
         q1 (s, a) = Some (old + alpha p * ((r + gamma p * nxt) - old)) \<and>
         (\<forall>k. k \<noteq> (s, a) \<longrightarrow> q1 k = q k)))
   \<and>
   (q_learning_formula e p q s a r s' a' = Inr q2 \<longrightarrow>
      (\<exists>old. q (s, a) = Some old \<and> possible_actions e \<noteq> [] \<and>
         (\<forall>x \<in> set (possible_actions e). q (s', x) \<noteq> None) \<and>
         q2 (s, a) =
           Some (old + alpha p *
             ((r + gamma p * Max ((\<lambda>x. the (q (s', x))) ` set (possible_actions e))) - old)) \<and>
         (\<forall>k. k \<noteq> (s, a) \<longrightarrow> q2 k = q k) \<and>
         (\<forall>b. q_learning_formula e p q s a r s' b = Inr q2)))"
proof (intro conjI impI)
  assume "sarsa_formula p q s a r s' a' = Inr q1"
  then show "\<exists>old nxt. q (s, a) = Some old \<and> q (s', a') = Some nxt \<and>
         q1 (s, a) = Some (old + alpha p * ((r + gamma p * nxt) - old)) \<and>
         (\<forall>k. k \<noteq> (s, a) \<longrightarrow> q1 k = q k)"
    by (auto simp: sarsa_formula_def bind_err_Inr_iff q_at_Inr_iff)
next
  assume h: "q_learning_formula e p q s a r s' a' = Inr q2"
  then obtain row old where row: "map_err (q_at q s') (possible_actions e) = Inr row"
    and ne: "row \<noteq> []" and old: "q (s, a) = Some old"
    and q2: "q2 = q((s, a) \<mapsto> old + alpha p * (r + gamma p * Max (set row) - old))"
    by (auto simp: q_learning_formula_def bind_err_Inr_iff q_at_Inr_iff py_max_Inr_iff)
  have rowmap: "row = map (\<lambda>x. the (q (s', x))) (possible_actions e)"
    using row by (rule map_err_q_at_Inr)
  have present: "\<forall>x \<in> set (possible_actions e). q (s', x) \<noteq> None"
    using row by (auto simp: map_err_Inr_iff q_at_Inr_iff in_set_conv_nth)
  have indep: "\<forall>b. q_learning_formula e p q s a r s' b = Inr q2"
    using h by (simp add: q_learning_formula_def)
  show "\<exists>old. q (s, a) = Some old \<and> possible_actions e \<noteq> [] \<and>
         (\<forall>x \<in> set (possible_actions e). q (s', x) \<noteq> None) \<and>
         q2 (s, a) =
           Some (old + alpha p *
             ((r + gamma p * Max ((\<lambda>x. the (q (s', x))) ` set (possible_actions e))) - old)) \<and>
         (\<forall>k. k \<noteq> (s, a) \<longrightarrow> q2 k = q k) \<and>
         (\<forall>b. q_learning_formula e p q s a r s' b = Inr q2)"
    using old ne present indep by (auto simp: q2 rowmap)
qed

text \<open>
  Both rules on the corridor, from cell 0 to cell 1 with reward \<open>-1\<close>: SARSA bootstraps
  from \<open>Q[1, Left] = 1\<close> and stores \<open>1/4\<close>, Q-learning from the row maximum
  \<open>Q[1, Right] = 3\<close> and stores \<open>3/4\<close>.
\<close>

theorem update_rules_exact_witness:
  "sarsa_formula control_run q_example 0 Right (- 1) 1 Left
     = Inr (q_example((0, Right) \<mapsto> 1 / 4)) \<and>
   q_learning_formula corridor control_run q_example 0 Right (- 1) 1 Left
     = Inr (q_example((0, Right) \<mapsto> 3 / 4)) \<and>
   (q_example((0, Right) \<mapsto> 1 / 4)) (1, Left) = q_example (1, Left) \<and>
   q_learning_formula corridor control_run q_example 0 Right (- 1) 1 Right
     = Inr (q_example((0, Right) \<mapsto> 3 / 4))"
proof -
  have h1: "sarsa_formula control_run q_example 0 Right (- 1) 1 Left
              = Inr (q_example((0, Right) \<mapsto> 1 / 4))"
    by (simp add: sarsa_formula_def bind_err_def q_at_def q_example_def control_run_def
                  get_q_df_def corridor_def)
  have h2: "q_learning_formula corridor control_run q_example 0 Right (- 1) 1 Left
              = Inr (q_example((0, Right) \<mapsto> 3 / 4))"
    by (simp add: q_learning_formula_def bind_err_def q_at_def q_example_def control_run_def
                  get_q_df_def corridor_def)
  from update_rules_exact [of control_run q_example 0 Right "- 1" 1 Left
         "q_example((0, Right) \<mapsto> 1 / 4)" corridor "q_example((0, Right) \<mapsto> 3 / 4)"] h1 h2
  show ?thesis by auto
qed

subsection \<open>The control driver\<close>

lemma td_step_fields:
  assumes "td_step rule e p f st = Inr st'"
  shows "num_of_steps st' = num_of_steps st + 1"
    and "st_state st' = new_state_given_action e (st_state st) (st_action st)"
    and "\<And>k. fst k \<noteq> st_state st \<Longrightarrow> q_values_df st' k = q_values_df st k"
proof -
  from assms obtain y na r' rw q' where
    alg: "algo rule e p (q_values_df st) (st_state st) (st_action st) rw
            (new_state_given_action e (st_state st) (st_action st)) na = Inr q'"
    and st': "st' = \<lparr> q_values_df = q',
                    state_action_pairs = (state_action_pairs st)
                      (new_state_given_action e (st_state st) (st_action st) \<mapsto> na),
                    st_state = new_state_given_action e (st_state st) (st_action st),
                    st_action = na,
                    num_of_steps = num_of_steps st + 1,
                    rng = r' \<rparr>"
    by (auto simp: td_step_def Let_def bind_err_Inr_iff split: option.splits prod.splits)
  show "num_of_steps st' = num_of_steps st + 1" by (simp add: st')
  show "st_state st' = new_state_given_action e (st_state st) (st_action st)" by (simp add: st')
  fix k :: "'a \<times> 'b"
  assume "fst k \<noteq> st_state st"
  then have "k \<noteq> (st_state st, st_action st)" by auto
  with alg have "q' k = q_values_df st k" by (rule algo_frame)
  then show "q_values_df st' k = q_values_df st k" by (simp add: st')
qed

lemma td_loop_terminal_rows:
  "td_loop rule e p f st = Inr st' \<Longrightarrow> is_terminal_state e (fst k)
     \<Longrightarrow> q_values_df st' k = q_values_df st k"
proof (induction rule e p f st rule: td_loop.induct)
  case (1 rule e p f st)
  show ?case
  proof (cases "\<not> is_terminal_state e (st_state st) \<and> int (num_of_steps st) < num_episodes p")
    case False
    with "1.prems" show ?thesis by (simp add: td_loop.simps)
  next
    case True
    with "1.prems" obtain st1 where step: "td_step rule e p f st = Inr st1"
      and rest: "td_loop rule e p f st1 = Inr st'"
      by (subst (asm) td_loop.simps) (auto split: sum.splits)
    have "q_values_df st' k = q_values_df st1 k"
      using "1.IH" [OF True step rest "1.prems"(2)] .
    moreover have "fst k \<noteq> st_state st" using True "1.prems"(2) by auto
    then have "q_values_df st1 k = q_values_df st k" by (rule td_step_fields(3) [OF step])
    ultimately show ?thesis by simp
  qed
qed

lemma td_loop_runs:
  "\<exists>n. int (num_of_steps st + n) \<le> max (int (num_of_steps st)) (num_episodes p) \<and>
       td_loop rule e p f st = td_steps n rule e p f st \<and>
       (\<forall>k<n. \<exists>sk. td_steps k rule e p f st = Inr sk \<and>
                  \<not> is_terminal_state e (st_state sk) \<and>
                  int (num_of_steps st + k) < num_episodes p) \<and>
       (\<forall>st'. td_steps n rule e p f st = Inr st' \<longrightarrow>
              num_of_steps st' = num_of_steps st + n \<and>
              (is_terminal_state e (st_state st') \<or>
               num_episodes p \<le> int (num_of_steps st + n)))"
proof (induction rule e p f st rule: td_loop.induct)
  case (1 rule e p f st)
  let ?guard = "\<not> is_terminal_state e (st_state st) \<and> int (num_of_steps st) < num_episodes p"
  show ?case
  proof (cases ?guard)
    case False
    then have "td_loop rule e p f st = Inr st" by (subst td_loop.simps) auto
    with False show ?thesis by (intro exI [of _ 0]) auto
  next
    case True
    show ?thesis
    proof (cases "td_step rule e p f st")
      case (Inl err)
      with True have "td_loop rule e p f st = Inl err" by (subst td_loop.simps) simp
      with Inl True show ?thesis
        by (intro exI [of _ 1]) (auto simp: bind_err_def)
    next
      case (Inr st1)
      have c1: "num_of_steps st1 = num_of_steps st + 1"
        by (rule td_step_fields(1) [OF Inr])
      from "1.IH" [OF True Inr] obtain n where
        b: "int (num_of_steps st1 + n) \<le> max (int (num_of_steps st1)) (num_episodes p)"
        and l: "td_loop rule e p f st1 = td_steps n rule e p f st1"
        and pre: "\<forall>k<n. \<exists>sk. td_steps k rule e p f st1 = Inr sk \<and>
                  \<not> is_terminal_state e (st_state sk) \<and>
                  int (num_of_steps st1 + k) < num_episodes p"
        and fin: "\<forall>st'. td_steps n rule e p f st1 = Inr st' \<longrightarrow>
              num_of_steps st' = num_of_steps st1 + n \<and>
              (is_terminal_state e (st_state st') \<or>
               num_episodes p \<le> int (num_of_steps st1 + n))"
        by blast
      have s: "td_steps (Suc k) rule e p f st = td_steps k rule e p f st1" for k
        by (simp add: Inr bind_err_def)
      have "td_loop rule e p f st = td_steps (Suc n) rule e p f st"
        using True Inr l by (subst td_loop.simps) (simp add: bind_err_def)
      moreover have "int (num_of_steps st + Suc n) \<le> max (int (num_of_steps st)) (num_episodes p)"
        using b c1 True by auto
      moreover have "\<exists>sk. td_steps k rule e p f st = Inr sk \<and>
                  \<not> is_terminal_state e (st_state sk) \<and>
                  int (num_of_steps st + k) < num_episodes p" if "k < Suc n" for k
      proof (cases k)
        case 0
        with True show ?thesis by simp
      next
        case (Suc k')
        with that have "k' < n" by simp
        with pre obtain sk where "td_steps k' rule e p f st1 = Inr sk"
          and "\<not> is_terminal_state e (st_state sk)"
          and "int (num_of_steps st1 + k') < num_episodes p"
          by blast
        then show ?thesis unfolding Suc s using c1 by auto
      qed
      moreover have "\<forall>st'. td_steps (Suc n) rule e p f st = Inr st' \<longrightarrow>
              num_of_steps st' = num_of_steps st + Suc n \<and>
              (is_terminal_state e (st_state st') \<or>
               num_episodes p \<le> int (num_of_steps st + Suc n))"
        unfolding s using fin c1 by simp
      ultimately show ?thesis by blast
    qed
  qed
qed

lemma td_epoch_terminal_rows:
  assumes "td_epoch rule e p f (q, pairs, r) = Inr (q', pairs', r')"
    and "is_terminal_state e (fst k)"
  shows "q' k = q k"
proof -
  from assms(1) obtain st0 st where "td_loop rule e p f st0 = Inr st"
    and "q_values_df st0 = q" and "q_values_df st = q'"
    by (auto simp: td_epoch_def bind_err_Inr_iff split: option.splits)
  with td_loop_terminal_rows [of rule e p f st0 st k] assms(2) show ?thesis by simp
qed

lemma for_range_td_epoch_terminal_rows:
  "for_range n (td_epoch rule e p f) (q, pairs, r) = Inr (q', pairs', r')
     \<Longrightarrow> is_terminal_state e (fst k) \<Longrightarrow> q' k = q k"
proof (induction n arbitrary: q pairs r)
  case 0
  then show ?case by simp
next
  case (Suc n)
  from Suc.prems(1) obtain q1 pairs1 r1 where
    a: "td_epoch rule e p f (q, pairs, r) = Inr (q1, pairs1, r1)"
    and b: "for_range n (td_epoch rule e p f) (q1, pairs1, r1) = Inr (q', pairs', r')"
    by (auto simp: bind_err_Inr_iff)
  from Suc.IH [OF b Suc.prems(2)] td_epoch_terminal_rows [OF a Suc.prems(2)]
  show ?case by simp
qed


text \<open>
  C5. After \<open>td_control\<close>, with either rule and whatever the generators draw, every
  entry of a terminal state holds its initial value 0: the loop only runs its body
  while \<open>state\<close> is not terminal, and the rule writes the entry of \<open>state\<close> only.
\<close>

theorem terminal_rows_keep_zero:
  assumes "td_control rule e p f r = Inr (q, r')"
    and "is_terminal_state e s"
    and "s \<in> set (all_states e)" and "a \<in> set (possible_actions e)"
  shows "q (s, a) = Some 0"
proof -
  obtain pairs0 r0 where p0: "random_pairs f (all_states e) Map.empty r = (pairs0, r0)"
    by (cases "random_pairs f (all_states e) Map.empty r")
  obtain pairs1 r1 where p1: "greedy_pairs f (dict_keys (all_states e)) pairs0 r0 = (pairs1, r1)"
    by (cases "greedy_pairs f (dict_keys (all_states e)) pairs0 r0")
  from assms(1) obtain pairs2 where
    "for_range (num_of_epochs p) (td_epoch rule e p f) (get_q_df e, pairs1, r1) = Inr (q, pairs2, r')"
    by (auto simp: td_control_def p0 p1 bind_err_Inr_iff)
  then have "q (s, a) = get_q_df e (s, a)"
    by (rule for_range_td_epoch_terminal_rows) (simp add: assms(2))
  with assms(3,4) show ?thesis by (simp add: get_q_df_def)
qed

text \<open>
  Two epochs of SARSA on the corridor: the entry of \<open>(0, Right)\<close> has moved to
  \<open>-3/4\<close>, the two entries of the terminal cell 2 are still 0.
\<close>

theorem terminal_rows_keep_zero_witness:
  "\<exists>q r'. td_control Sarsa corridor control_run tape [1, 1, 1, 2, 2, 2] = Inr (q, r') \<and>
      is_terminal_state corridor 2 \<and> q (0, Right) = Some (- 3 / 4) \<and>
      q (2, Left) = Some 0 \<and> q (2, Right) = Some 0"
proof -
  have run: "map_sum (\<lambda>x. x) (\<lambda>(q, r). (q (0, Right), r))
               (td_control Sarsa corridor control_run tape [1, 1, 1, 2, 2, 2])
             = Inr (Some (- 3 / 4), [])"
    by code_simp
  then obtain q r' where h: "td_control Sarsa corridor control_run tape [1, 1, 1, 2, 2, 2] = Inr (q, r')"
    and v: "q (0, Right) = Some (- 3 / 4)"
    by (cases "td_control Sarsa corridor control_run tape [1, 1, 1, 2, 2, 2]") auto
  have t: "is_terminal_state corridor 2" by (simp add: corridor_def)
  have "q (2, Left) = Some 0"
    by (rule terminal_rows_keep_zero [OF h t]) (simp_all add: corridor_def)
  moreover have "q (2, Right) = Some 0"
    by (rule terminal_rows_keep_zero [OF h t]) (simp_all add: corridor_def)
  ultimately show ?thesis using h v t by blast
qed

subsection \<open>TD(0) prediction\<close>

lemma td0_step_Inr:
  assumes "td0_step p f (e, s, d, r) = Inr (e', s', d', r')"
  shows "\<exists>v w. grid e s = Some v \<and> grid e s' = Some w \<and>
           s' = new_state_given_action e s (fst (get_random_action f None r)) \<and>
           r' = snd (get_random_action f None r) \<and>
           d' = is_terminal_state e s' \<and>
           e' = e\<lparr> grid := (grid e)(s \<mapsto>
                  v + alpha p * (reward p + gamma p * w * (if d then 0 else 1) - v)) \<rparr>"
  using assms
  by (auto simp: td0_step_def Let_def bind_err_Inr_iff grid_at_def
           split: prod.splits option.splits)

lemma td0_loop_runs:
  assumes "td0_loop p f st = Some (Inr st')" and "\<not> fst (snd (snd st))"
  shows "\<exists>n>0. td0_steps n p f st = Inr st' \<and> fst (snd (snd st')) \<and>
           is_terminal_state (fst st) (fst (snd st')) \<and>
           (\<forall>k<n. \<exists>sk. td0_steps k p f st = Inr sk \<and> \<not> fst (snd (snd sk)))"
proof -
  have "\<forall>st'. y = Inr st' \<longrightarrow>
           (if fst (snd (snd st)) then st' = st
            else \<exists>n>0. td0_steps n p f st = Inr st' \<and> fst (snd (snd st')) \<and>
                   is_terminal_state (fst st) (fst (snd st')) \<and>
                   (\<forall>k<n. \<exists>sk. td0_steps k p f st = Inr sk \<and> \<not> fst (snd (snd sk))))"
    if "td0_loop p f st = Some y" for y
  proof (rule td0_loop.raw_induct [where P = "\<lambda>p f st y. \<forall>st'. y = Inr st' \<longrightarrow>
           (if fst (snd (snd st)) then st' = st
            else \<exists>n>0. td0_steps n p f st = Inr st' \<and> fst (snd (snd st')) \<and>
                   is_terminal_state (fst st) (fst (snd st')) \<and>
                   (\<forall>k<n. \<exists>sk. td0_steps k p f st = Inr sk \<and> \<not> fst (snd (snd sk))))",
         OF _ that], goal_cases)
    case (1 loop p f st y)
    note IH = "1"(1) and eq = "1"(2)
    show ?case
    proof (cases "fst (snd (snd st))")
      case True
      with eq show ?thesis by auto
    next
      case False
      obtain e s d r where st: "st = (e, s, d, r)" by (cases st) auto
      show ?thesis
      proof (intro allI impI)
        fix st' assume y: "y = Inr st'"
        from eq False y obtain st1 where step: "td0_step p f st = Inr st1"
          and rest: "loop p f st1 = Some (Inr st')"
          by (auto split: sum.splits)
        obtain e1 s1 d1 r1 where st1: "st1 = (e1, s1, d1, r1)" by (cases st1) auto
        from td0_step_Inr [OF step [unfolded st st1]]
        have d1: "d1 = is_terminal_state e s1"
          and e1: "is_terminal_state e1 = is_terminal_state e"
          by auto
        have s: "td0_steps (Suc k) p f st = td0_steps k p f st1" for k
          by (simp add: step bind_err_def)
        from IH [OF rest]
        have ih: "if fst (snd (snd st1)) then st' = st1
            else \<exists>n>0. td0_steps n p f st1 = Inr st' \<and> fst (snd (snd st')) \<and>
                   is_terminal_state (fst st1) (fst (snd st')) \<and>
                   (\<forall>k<n. \<exists>sk. td0_steps k p f st1 = Inr sk \<and> \<not> fst (snd (snd sk)))"
          by simp
        have "\<exists>n>0. td0_steps n p f st = Inr st' \<and> fst (snd (snd st')) \<and>
                   is_terminal_state (fst st) (fst (snd st')) \<and>
                   (\<forall>k<n. \<exists>sk. td0_steps k p f st = Inr sk \<and> \<not> fst (snd (snd sk)))"
        proof (cases d1)
          case True
          with ih st1 have eq': "st' = st1" by simp
          have "td0_steps 1 p f st = Inr st'" using s [of 0] by (simp add: eq')
          moreover have "fst (snd (snd st'))" using True by (simp add: eq' st1)
          moreover have "is_terminal_state (fst st) (fst (snd st'))"
            using True d1 by (simp add: eq' st1 st)
          moreover have "\<forall>k<1. \<exists>sk. td0_steps k p f st = Inr sk \<and> \<not> fst (snd (snd sk))"
            using False by simp
          ultimately show ?thesis by (intro exI [of _ 1]) simp
        next
          case nd: False
          with ih st1 obtain n where n: "n > 0" "td0_steps n p f st1 = Inr st'"
            "fst (snd (snd st'))" "is_terminal_state (fst st1) (fst (snd st'))"
            and pre: "\<forall>k<n. \<exists>sk. td0_steps k p f st1 = Inr sk \<and> \<not> fst (snd (snd sk))"
            by auto
          have "td0_steps (Suc n) p f st = Inr st'" unfolding s by (rule n(2))
          moreover have "is_terminal_state (fst st) (fst (snd st'))"
            using n(4) e1 by (simp add: st st1)
          moreover have "\<exists>sk. td0_steps k p f st = Inr sk \<and> \<not> fst (snd (snd sk))"
            if "k < Suc n" for k
          proof (cases k)
            case 0
            with False show ?thesis by simp
          next
            case (Suc k')
            with that have "k' < n" by simp
            with pre show ?thesis unfolding Suc s by blast
          qed
          ultimately show ?thesis using n(3) by (intro exI [of _ "Suc n"]) simp
        qed
        with False show "if fst (snd (snd st)) then st' = st
            else \<exists>n>0. td0_steps n p f st = Inr st' \<and> fst (snd (snd st')) \<and>
                   is_terminal_state (fst st) (fst (snd st')) \<and>
                   (\<forall>k<n. \<exists>sk. td0_steps k p f st = Inr sk \<and> \<not> fst (snd (snd sk)))"
          by simp
      qed
    qed
  qed
  from this [OF assms(1)] assms(2) show ?thesis by simp
qed







lemma td0_step_stuck:
  assumes "stuck st"
  shows "\<exists>st1. td0_step td0_run tape st = Inr st1 \<and> stuck st1"
proof -
  obtain e s d r where st: "st = (e, s, d, r)" by (cases st) auto
  with assms show ?thesis
    by (auto simp: stuck_def td0_step_def tape_def pop_def Let_def bind_err_def grid_at_def
          corridor_def split: option.splits)
qed

lemma td0_loop_stuck:
  assumes "td0_loop td0_run tape st = Some y" and "stuck st"
  shows False
proof -
  have "p = td0_run \<longrightarrow> f = tape \<longrightarrow> stuck st \<longrightarrow> False"
    if "td0_loop p f st = Some y" for p f
  proof (rule td0_loop.raw_induct [where P = "\<lambda>p f st y.
            p = td0_run \<longrightarrow> f = tape \<longrightarrow> stuck st \<longrightarrow> False", OF _ that],
         goal_cases)
    case (1 loop p f st y)
    note IH = "1"(1) and eq = "1"(2)
    show ?case
    proof (intro impI)
      assume p: "p = td0_run" and f: "f = tape" and s: "stuck st"
      from td0_step_stuck [OF s] obtain st1 where
        step: "td0_step td0_run tape st = Inr st1" and s1: "stuck st1" by blast
      from s have nd: "\<not> fst (snd (snd st))" by (auto simp: stuck_def)
      from eq nd step p f have "loop p f st1 = Some y" by simp
      from IH [OF this] p f s1 show False by simp
    qed
  qed
  from this [of td0_run tape] assms show False by simp
qed





subsection \<open>n-step TD\<close>

text \<open>
  C2. One epoch on the corridor with every draw \<open>Right\<close>, from the same tape: TD(0)
  stores \<open>-5/4\<close> and \<open>-1\<close> and has used two draws; n-step TD with \<open>n_step = 1\<close>
  stores \<open>-7/4\<close> and \<open>-5/4\<close> and has used three, the third for a step out of the
  terminal cell.
\<close>

theorem nstep_one_is_not_td0:
  "run_result (td0_compute_state_value td0_run tape corridor [1, 1, 1, 1])
     = Some (Inr ([Some (- 5 / 4), Some (- 1), Some 0], [1, 1])) \<and>
   run_result (nstep_compute_state_value (nstep_run 1) tape corridor [1, 1, 1, 1])
     = Some (Inr ([Some (- 7 / 4), Some (- 5 / 4), Some 0], [1]))"
  by code_simp

text \<open>
  C3. With \<open>n_step = 2\<close> and \<open>gamma = 1/2\<close>, the return the code uses for the state
  visited at time 0 is \<open>-2 + (-1) * gamma^(-1) + gamma^2 * V[s_1] = -17/4\<close>; the
  return of the claim is \<open>-2 + gamma * (-1) + gamma^2 * V[s_2] = -5/2\<close>. The example
  state is the one the loop reaches, and the run stores \<open>-21/8\<close> at cell 0.
\<close>

theorem nstep_return_is_not_the_discounted_sum:
  "map_sum (\<lambda>err. err) nstep_view
     (bind_err (nstep_body (nstep_run 2) tape (nstep_init corridor 0 [1, 1]))
        (nstep_observe (nstep_run 2) tape)) = Inr (nstep_view nstep_example) \<and>
   nstep_return (nstep_run 2) nstep_example 0 = Inr (- 17 / 4) \<and>
   spec_nstep_return (1 / 2) 2 (ns_rewards nstep_example) (grid corridor) 2 0 = - 5 / 2 \<and>
   run_result (nstep_compute_state_value (nstep_run 2) tape corridor [1, 1, 1, 1])
     = Some (Inr ([Some (- 21 / 8), Some (- 1), Some 0], [1]))"
  by code_simp

subsection \<open>Double Q-learning and Dyna-Q\<close>

lemma env_call_unknown:
  "env_call e ''next_state_given_action'' s a = Inl (AttributeError ''next_state_given_action'')"
  by (simp add: env_call_def env_getattr_def bind_err_def)

lemma env_call_contract:
  "env_call e ''new_state_given_action'' s a = Inr (new_state_given_action e s a)"
  by (simp add: env_call_def env_getattr_def bind_err_def)

text \<open>
  C8. The loop bodies of \<open>DoubleQLearning\<close> and \<open>TabularDynaQ\<close> ask the environment
  for \<open>next_state_given_action\<close>, a name the contract does not have, where the other
  drivers ask for \<open>new_state_given_action\<close>. On an environment that provides exactly
  the contract every step of either ends in \<open>AttributeError\<close>, and so does a run of
  double Q-learning on the corridor; the contract's own name answers.
\<close>

theorem double_q_step_raises_attribute_error:
  "double_q_step e p f st = Inl (AttributeError ''next_state_given_action'') \<and>
   dyna_q_step_begin e p f q s a r = Inl (AttributeError ''next_state_given_action'') \<and>
   map_sum (\<lambda>err. err) (\<lambda>x. ()) (double_q_compute_state_value corridor control_run tape [])
     = Inl (AttributeError ''next_state_given_action'') \<and>
   env_call corridor ''new_state_given_action'' 0 Right = Inr 1"
proof -
  have "double_q_step e p f st = Inl (AttributeError ''next_state_given_action'')"
    by (simp add: double_q_step_def env_call_unknown bind_err_def)
  moreover have "dyna_q_step_begin e p f q s a r = Inl (AttributeError ''next_state_given_action'')"
    by (simp add: dyna_q_step_begin_def env_call_unknown bind_err_def)
  moreover have "map_sum (\<lambda>err. err) (\<lambda>x. ())
      (double_q_compute_state_value corridor control_run tape [])
     = Inl (AttributeError ''next_state_given_action'')"
    by code_simp
  moreover have "env_call corridor ''new_state_given_action'' 0 Right = Inr 1"
    by code_simp
  ultimately show ?thesis by simp
qed

subsection \<open>The episode loops\<close>

lemma double_q_step_counter:
  "double_q_step e p f st = Inr st' \<Longrightarrow> dq_num_of_steps st' = dq_num_of_steps st + 1"
  by (auto simp: double_q_step_def bind_err_def split: prod.splits sum.splits if_splits)

lemma double_q_loop_runs:
  "\<exists>n. int (dq_num_of_steps st + n) \<le> max (int (dq_num_of_steps st)) (num_episodes p) \<and>
       double_q_loop e p f st = double_q_steps n e p f st \<and>
       (\<forall>k<n. \<exists>sk. double_q_steps k e p f st = Inr sk \<and>
                  \<not> is_terminal_state e (dq_state sk) \<and>
                  int (dq_num_of_steps st + k) < num_episodes p) \<and>
       (\<forall>st'. double_q_steps n e p f st = Inr st' \<longrightarrow>
              dq_num_of_steps st' = dq_num_of_steps st + n \<and>
              (is_terminal_state e (dq_state st') \<or>
               num_episodes p \<le> int (dq_num_of_steps st + n)))"
proof (induction e p f st rule: double_q_loop.induct)
  case (1 e p f st)
  let ?guard = "\<not> is_terminal_state e (dq_state st) \<and> int (dq_num_of_steps st) < num_episodes p"
  show ?case
  proof (cases ?guard)
    case False
    then have "double_q_loop e p f st = Inr st" by (subst double_q_loop.simps) auto
    with False show ?thesis by (intro exI [of _ 0]) auto
  next
    case True
    show ?thesis
    proof (cases "double_q_step e p f st")
      case (Inl err)
      with True have "double_q_loop e p f st = Inl err" by (subst double_q_loop.simps) simp
      with Inl True show ?thesis
        by (intro exI [of _ 1]) (auto simp: bind_err_def)
    next
      case (Inr st1)
      have c1: "dq_num_of_steps st1 = dq_num_of_steps st + 1"
        by (rule double_q_step_counter [OF Inr])
      from "1.IH" [OF True Inr] obtain n where
        b: "int (dq_num_of_steps st1 + n) \<le> max (int (dq_num_of_steps st1)) (num_episodes p)"
        and l: "double_q_loop e p f st1 = double_q_steps n e p f st1"
        and pre: "\<forall>k<n. \<exists>sk. double_q_steps k e p f st1 = Inr sk \<and>
                  \<not> is_terminal_state e (dq_state sk) \<and>
                  int (dq_num_of_steps st1 + k) < num_episodes p"
        and fin: "\<forall>st'. double_q_steps n e p f st1 = Inr st' \<longrightarrow>
              dq_num_of_steps st' = dq_num_of_steps st1 + n \<and>
              (is_terminal_state e (dq_state st') \<or>
               num_episodes p \<le> int (dq_num_of_steps st1 + n))"
        by blast
      have s: "double_q_steps (Suc k) e p f st = double_q_steps k e p f st1" for k
        by (simp add: Inr bind_err_def)
      have "double_q_loop e p f st = double_q_steps (Suc n) e p f st"
        using True Inr l by (subst double_q_loop.simps) (simp add: bind_err_def)
      moreover have
        "int (dq_num_of_steps st + Suc n) \<le> max (int (dq_num_of_steps st)) (num_episodes p)"
        using b c1 True by auto
      moreover have "\<exists>sk. double_q_steps k e p f st = Inr sk \<and>
                  \<not> is_terminal_state e (dq_state sk) \<and>
                  int (dq_num_of_steps st + k) < num_episodes p" if "k < Suc n" for k
      proof (cases k)
        case 0
        with True show ?thesis by simp
      next
        case (Suc k')
        with that have "k' < n" by simp
        with pre obtain sk where "double_q_steps k' e p f st1 = Inr sk"
          and "\<not> is_terminal_state e (dq_state sk)"
          and "int (dq_num_of_steps st1 + k') < num_episodes p"
          by blast
        then show ?thesis unfolding Suc s using c1 by auto
      qed
      moreover have "\<forall>st'. double_q_steps (Suc n) e p f st = Inr st' \<longrightarrow>
              dq_num_of_steps st' = dq_num_of_steps st + Suc n \<and>
              (is_terminal_state e (dq_state st') \<or>
               num_episodes p \<le> int (dq_num_of_steps st + Suc n))"
        unfolding s using fin c1 by simp
      ultimately show ?thesis by blast
    qed
  qed
qed

text \<open>
  C4, as stated, fails for TD(0) prediction: \<open>TabularTD0\<close> has no step counter and no
  ceiling. On the corridor, when every draw is \<open>Left\<close>, the walk never leaves cell 0
  and the episode never ends.
\<close>

theorem td0_never_stops:
  "td0_compute_state_value td0_run tape corridor [] = None"
proof -
  have s0: "stuck (corridor, 0, False, [])" by (simp add: stuck_def corridor_def)
  have "td0_loop td0_run tape (corridor, 0, False, []) = None"
  proof (cases "td0_loop td0_run tape (corridor, 0, False, [])")
    case None then show ?thesis .
  next
    case (Some y)
    from td0_loop_stuck [OF Some] s0 show ?thesis by simp
  qed
  then show ?thesis
    by (simp add: td0_compute_state_value_def td0_epoch_def td0_run_def)
qed

text \<open>
  C4, amended. An episode of the shared control driver (SARSA, Q-learning) and an episode
  of double Q-learning run the body of their loop some \<open>n\<close> times, \<open>n\<close> at most
  \<open>max 0 num_episodes\<close>: before each pass the environment does not report a terminal
  state and the step counter is below the ceiling \<open>num_episodes\<close>, and the loop stops
  at the first state that is terminal or has the counter at the ceiling, unless a pass
  raises before. An episode of TD(0) prediction, which has no counter, runs its body
  until the first successor that is terminal, and stops nowhere else.
\<close>

theorem episode_loop_stops:
  "(num_of_steps st = 0 \<longrightarrow>
      (\<exists>n. int n \<le> max 0 (num_episodes p) \<and>
           td_loop rule e p f st = td_steps n rule e p f st \<and>
           (\<forall>k<n. \<exists>sk. td_steps k rule e p f st = Inr sk \<and>
                      \<not> is_terminal_state e (st_state sk) \<and> int k < num_episodes p) \<and>
           (\<forall>st'. td_steps n rule e p f st = Inr st' \<longrightarrow>
                  num_of_steps st' = n \<and>
                  (is_terminal_state e (st_state st') \<or> num_episodes p \<le> int n))))
   \<and>
   (dq_num_of_steps dst = 0 \<longrightarrow>
      (\<exists>n. int n \<le> max 0 (num_episodes p) \<and>
           double_q_loop e p f dst = double_q_steps n e p f dst \<and>
           (\<forall>k<n. \<exists>sk. double_q_steps k e p f dst = Inr sk \<and>
                      \<not> is_terminal_state e (dq_state sk) \<and> int k < num_episodes p) \<and>
           (\<forall>st'. double_q_steps n e p f dst = Inr st' \<longrightarrow>
                  dq_num_of_steps st' = n \<and>
                  (is_terminal_state e (dq_state st') \<or> num_episodes p \<le> int n))))
   \<and>
   (td0_loop p0 f0 (e0, s0, False, r0) = Some (Inr (e1, s1, d1, r1)) \<longrightarrow>
      d1 \<and> is_terminal_state e0 s1 \<and>
      (\<exists>n>0. td0_steps n p0 f0 (e0, s0, False, r0) = Inr (e1, s1, d1, r1) \<and>
             (\<forall>k<n. \<exists>sk. td0_steps k p0 f0 (e0, s0, False, r0) = Inr sk \<and>
                        \<not> fst (snd (snd sk)))))"
proof (intro conjI)
  show "num_of_steps st = 0 \<longrightarrow>
      (\<exists>n. int n \<le> max 0 (num_episodes p) \<and>
           td_loop rule e p f st = td_steps n rule e p f st \<and>
           (\<forall>k<n. \<exists>sk. td_steps k rule e p f st = Inr sk \<and>
                      \<not> is_terminal_state e (st_state sk) \<and> int k < num_episodes p) \<and>
           (\<forall>st'. td_steps n rule e p f st = Inr st' \<longrightarrow>
                  num_of_steps st' = n \<and>
                  (is_terminal_state e (st_state st') \<or> num_episodes p \<le> int n)))"
    using td_loop_runs [of st p rule e f] by auto
  show "dq_num_of_steps dst = 0 \<longrightarrow>
      (\<exists>n. int n \<le> max 0 (num_episodes p) \<and>
           double_q_loop e p f dst = double_q_steps n e p f dst \<and>
           (\<forall>k<n. \<exists>sk. double_q_steps k e p f dst = Inr sk \<and>
                      \<not> is_terminal_state e (dq_state sk) \<and> int k < num_episodes p) \<and>
           (\<forall>st'. double_q_steps n e p f dst = Inr st' \<longrightarrow>
                  dq_num_of_steps st' = n \<and>
                  (is_terminal_state e (dq_state st') \<or> num_episodes p \<le> int n)))"
    using double_q_loop_runs [of dst p e f] by auto
  show "td0_loop p0 f0 (e0, s0, False, r0) = Some (Inr (e1, s1, d1, r1)) \<longrightarrow>
      d1 \<and> is_terminal_state e0 s1 \<and>
      (\<exists>n>0. td0_steps n p0 f0 (e0, s0, False, r0) = Inr (e1, s1, d1, r1) \<and>
             (\<forall>k<n. \<exists>sk. td0_steps k p0 f0 (e0, s0, False, r0) = Inr sk \<and>
                        \<not> fst (snd (snd sk))))"
    using td0_loop_runs [of p0 f0 "(e0, s0, False, r0)" "(e1, s1, d1, r1)"] by auto
qed

text \<open>
  SARSA on the corridor with ceiling 3 makes 2 passes and stops in the terminal cell,
  which the first pass had not reached; with ceiling 1 it stops after 1 pass in cell 1.
  Double Q-learning stops in its first pass, which raises. TD(0) with two draws
  \<open>Right\<close> stops in the terminal cell.
\<close>

theorem episode_loop_stops_witness:
  "num_of_steps control_start = 0 \<and>
   (\<exists>st'. td_loop Sarsa corridor control_run tape control_start = Inr st' \<and>
          td_steps 2 Sarsa corridor control_run tape control_start = Inr st' \<and>
          num_of_steps st' = 2 \<and> is_terminal_state corridor (st_state st')) \<and>
   (\<exists>sk. td_steps 1 Sarsa corridor control_run tape control_start = Inr sk \<and>
         \<not> is_terminal_state corridor (st_state sk)) \<and>
   (\<exists>st'. td_loop Sarsa corridor (control_run\<lparr> num_episodes := 1 \<rparr>) tape control_start = Inr st' \<and>
          num_of_steps st' = 1 \<and> \<not> is_terminal_state corridor (st_state st')) \<and>
   dq_num_of_steps double_q_start = 0 \<and>
   double_q_loop corridor control_run tape double_q_start
     = Inl (AttributeError ''next_state_given_action'') \<and>
   (\<exists>n. int n \<le> 3 \<and>
        double_q_loop corridor control_run tape double_q_start
          = double_q_steps n corridor control_run tape double_q_start) \<and>
   (\<exists>e1. td0_loop td0_run tape (corridor, 0, False, [1, 1]) = Some (Inr (e1, 2, True, [])) \<and>
         is_terminal_state corridor 2 \<and>
         (\<exists>n>0. td0_steps n td0_run tape (corridor, 0, False, [1, 1]) = Inr (e1, 2, True, [])))"
proof -
  have z: "num_of_steps control_start = 0" by (simp add: control_start_def)
  have "map_sum (\<lambda>x. x) (\<lambda>st. (num_of_steps st, st_state st))
          (td_loop Sarsa corridor control_run tape control_start) = Inr (2, 2)"
    by code_simp
  then obtain st2 where a: "td_loop Sarsa corridor control_run tape control_start = Inr st2"
    and a': "num_of_steps st2 = 2" "st_state st2 = 2"
    by (cases "td_loop Sarsa corridor control_run tape control_start") auto
  have "map_sum (\<lambda>x. x) (\<lambda>st. (num_of_steps st, st_state st))
          (td_loop Sarsa corridor (control_run\<lparr> num_episodes := 1 \<rparr>) tape control_start)
        = Inr (1, 1)"
    by code_simp
  then obtain st1 where
    b: "td_loop Sarsa corridor (control_run\<lparr> num_episodes := 1 \<rparr>) tape control_start = Inr st1"
    and b': "num_of_steps st1 = 1" "st_state st1 = 1"
    by (cases "td_loop Sarsa corridor (control_run\<lparr> num_episodes := 1 \<rparr>) tape control_start")
       auto
  have zq: "dq_num_of_steps double_q_start = 0" by (simp add: double_q_start_def)
  have q: "double_q_loop corridor control_run tape double_q_start
             = Inl (AttributeError ''next_state_given_action'')"
    by (subst double_q_loop.simps)
       (simp add: double_q_step_def env_call_unknown bind_err_def double_q_start_def
          corridor_def control_run_def)
  have "map_option (map_sum (\<lambda>x. x) (\<lambda>(e, s, d, r). (s, d, r)))
          (td0_loop td0_run tape (corridor, 0, False, [1, 1])) = Some (Inr (2, True, []))"
    by code_simp
  then obtain e1 where
    c: "td0_loop td0_run tape (corridor, 0, False, [1, 1]) = Some (Inr (e1, 2, True, []))"
    by (cases "td0_loop td0_run tape (corridor, 0, False, [1, 1])")
       (auto simp: map_sum_def split: sum.splits)
  note inst = episode_loop_stops [of control_start control_run Sarsa corridor tape
      double_q_start td0_run tape corridor 0 "[1, 1]" e1 2 True "[]"]
  have ce: "max 0 (num_episodes control_run) = 3" by (simp add: control_run_def)
  from inst z obtain n where n: "td_loop Sarsa corridor control_run tape control_start
        = td_steps n Sarsa corridor control_run tape control_start"
    and pre: "\<forall>k<n. \<exists>sk. td_steps k Sarsa corridor control_run tape control_start = Inr sk \<and>
                \<not> is_terminal_state corridor (st_state sk) \<and> int k < num_episodes control_run"
    and fin: "\<forall>st'. td_steps n Sarsa corridor control_run tape control_start = Inr st' \<longrightarrow>
                num_of_steps st' = n \<and>
                (is_terminal_state corridor (st_state st') \<or> num_episodes control_run \<le> int n)"
    by blast
  from fin n a a' have n2: "n = 2" by auto
  have t2: "is_terminal_state corridor (st_state st2)" using a' by (simp add: corridor_def)
  have p1: "\<exists>sk. td_steps 1 Sarsa corridor control_run tape control_start = Inr sk \<and>
         \<not> is_terminal_state corridor (st_state sk)"
  proof -
    have "(1 :: nat) < n" using n2 by simp
    with pre show ?thesis by blast
  qed
  have s2: "td_steps 2 Sarsa corridor control_run tape control_start = Inr st2"
    using n a n2 by simp
  from inst zq ce have dq: "\<exists>n. int n \<le> 3 \<and>
        double_q_loop corridor control_run tape double_q_start
          = double_q_steps n corridor control_run tape double_q_start"
    by auto
  from inst c have td0: "is_terminal_state corridor 2 \<and>
      (\<exists>n>0. td0_steps n td0_run tape (corridor, 0, False, [1, 1]) = Inr (e1, 2, True, []))"
    by auto
  have nt: "\<not> is_terminal_state corridor (st_state st1)" using b' by (simp add: corridor_def)
  show ?thesis
    using z a a' s2 t2 p1 b b' nt zq q dq c td0 by blast
qed

subsection \<open>Bandits\<close>

lemma UCB_estimation_first: "UCB_estimation u 0 df = map (\<lambda>(n, c). q_estimation c) df"
  by (simp add: UCB_estimation_def)

text \<open>
  C9. Two steps of the greedy learner on the two arms, choosing \<open>A\<close> and then the best
  arm \<open>B\<close>: the stored series is \<open>[1/2]\<close>, one entry for two steps, where the
  series of the claim is \<open>[0, 1/2]\<close>. One step of the UCB learner that chooses \<open>A\<close>
  stores the empty series.
\<close>

theorem simulate_records_best_steps_only:
  "map_sum (\<lambda>err. err) (\<lambda>(df, pct, r). (pct, map (\<lambda>(n, c). (n, action_count c)) df))
     (greedy_simulate pure_greedy tape 2 two_arms [0, 0, 0, 0, 1, 0])
     = Inr ([1 / 2], [(''A'', 1), (''B'', 1)]) \<and>
   spec_best_action_percentage [''A'', ''B''] ''B'' = [0, 1 / 2] \<and>
   map_sum (\<lambda>err. err) (\<lambda>(df, pct, r). (pct, map (\<lambda>(n, c). (n, action_count c)) df))
     (ucb_simulate ucb_run tape 1 two_arms [0, 0])
     = Inr ([], [(''A'', 1), (''B'', 0)])"
proof -
  have "map_sum (\<lambda>err. err) (\<lambda>(df, pct, r). (pct, map (\<lambda>(n, c). (n, action_count c)) df))
     (greedy_simulate pure_greedy tape 2 two_arms [0, 0, 0, 0, 1, 0])
     = Inr ([1 / 2], [(''A'', 1), (''B'', 1)])"
    by code_simp
  moreover have "spec_best_action_percentage [''A'', ''B''] ''B'' = [0, 1 / 2]"
    by code_simp
  moreover have
    "map_sum (\<lambda>err. err) (\<lambda>(df, pct, r). (pct, map (\<lambda>(n, c). (n, action_count c)) df))
     (ucb_simulate ucb_run tape 1 two_arms [0, 0])
     = Inr ([], [(''A'', 1), (''B'', 0)])"
    by (simp add: ucb_simulate_def ucb_simulate_body_def ucb_act_def UCB_estimation_first
          two_arms_def maximizers_def random_choice_def tape_def pop_def bind_err_def
          py_index_def ucb_step_def df_column_def random_normal_def df_assign_def ucb_run_def
          record_best_def idxmax_mean_def Let_def)
  ultimately show ?thesis by simp
qed
lemma truth_names: "map fst (truth df) = map fst df"
  by (induction df) (auto simp: truth_def)

lemma df_assign_truth:
  assumes "distinct (map fst df)" and "map_of df action = Some c"
    and "mean c2 = mean c" and "sd c2 = sd c"
  shows "truth (df_assign df action c2) = truth df"
proof -
  have "truth (df_assign df action c2)
        = map (\<lambda>(n, old). if n = action then (n, mean c2, sd c2) else (n, mean old, sd old)) df"
    by (induction df) (simp_all add: truth_def df_assign_def split: prod.splits)
  also have "\<dots> = map (\<lambda>(n, old). (n, mean old, sd old)) df"
  proof (rule map_cong [OF refl])
    fix x assume x: "x \<in> set df"
    obtain n old where nx: "x = (n, old)" by (cases x)
    have "old = c" if "n = action"
      using eq_key_imp_eq_value [OF assms(1) _ map_of_SomeD [OF assms(2)], of old] x nx that
      by simp
    then show "(case x of (n, old) \<Rightarrow>
                  if n = action then (n, mean c2, sd c2) else (n, mean old, sd old))
             = (case x of (n, old) \<Rightarrow> (n, mean old, sd old))"
      using assms(3,4) by (simp add: nx)
  qed
  finally show ?thesis by (simp add: truth_def)
qed

lemma df_assign_other_arms: "other_arms action (df_assign df action c2) = other_arms action df"
  by (induction df) (auto simp: other_arms_def df_assign_def)

lemma greedy_step_frame:
  assumes "greedy_step g f action df r = Inr (df', r')" and "distinct (map fst df)"
  shows "truth df' = truth df \<and> other_arms action df' = other_arms action df"
proof (cases "map_of df action")
  case None
  with assms(1) show ?thesis by (simp add: greedy_step_def bind_err_def df_column_def)
next
  case (Some c)
  have keep: "truth (df_assign df action (c\<lparr> action_count := x, q_estimation := y \<rparr>)) = truth df"
    for x y
    by (rule df_assign_truth [OF assms(2) Some]) simp_all
  from assms(1) Some show ?thesis
    by (auto simp: greedy_step_def bind_err_Inr_iff df_column_def Let_def keep df_assign_other_arms)
qed

lemma ucb_step_frame:
  assumes "ucb_step u f action df r = Inr (df', r')" and "distinct (map fst df)"
  shows "truth df' = truth df \<and> other_arms action df' = other_arms action df"
proof (cases "map_of df action")
  case None
  with assms(1) show ?thesis by (simp add: ucb_step_def bind_err_def df_column_def)
next
  case (Some c)
  have keep: "truth (df_assign df action (c\<lparr> action_count := x, q_estimation := y \<rparr>)) = truth df"
    for x y
    by (rule df_assign_truth [OF assms(2) Some]) simp_all
  from assms(1) Some show ?thesis
    by (auto simp: ucb_step_def bind_err_Inr_iff df_column_def Let_def keep df_assign_other_arms)
qed

lemma for_each_truth:
  assumes body: "\<forall>i df cnt pct r df' cnt' pct' r'.
      body i (df, cnt, pct, r) = Inr (df', cnt', pct', r') \<longrightarrow> distinct (map fst df)
        \<longrightarrow> truth df' = truth df"
  shows "for_each xs body (df, cnt, pct, r) = Inr (df', cnt', pct', r')
     \<Longrightarrow> distinct (map fst df) \<Longrightarrow> truth df' = truth df"
proof (induction xs arbitrary: df cnt pct r)
  case Nil
  then show ?case by simp
next
  case (Cons i xs)
  from Cons.prems(1) obtain df1 cnt1 pct1 r1 where
    a: "body i (df, cnt, pct, r) = Inr (df1, cnt1, pct1, r1)"
    and b: "for_each xs body (df1, cnt1, pct1, r1) = Inr (df', cnt', pct', r')"
    by (auto simp: bind_err_Inr_iff)
  have t1: "truth df1 = truth df" using body a Cons.prems(2) by blast
  then have "map fst df1 = map fst df" by (metis truth_names)
  with Cons.prems(2) have "distinct (map fst df1)" by simp
  from Cons.IH [OF b this] t1 show ?case by simp
qed

lemma greedy_simulate_body_truth:
  "greedy_simulate_body g f i (df, cnt, pct, r) = Inr (df', cnt', pct', r')
     \<Longrightarrow> distinct (map fst df) \<Longrightarrow> truth df' = truth df"
  by (auto simp: greedy_simulate_body_def bind_err_Inr_iff dest: greedy_step_frame)

lemma ucb_simulate_body_truth:
  "ucb_simulate_body u f i (df, cnt, pct, r) = Inr (df', cnt', pct', r')
     \<Longrightarrow> distinct (map fst df) \<Longrightarrow> truth df' = truth df"
  by (auto simp: ucb_simulate_body_def bind_err_Inr_iff dest: ucb_step_frame)

text \<open>
  C10. On a frame whose columns have distinct names, \<open>_step\<close> of either learner
  leaves the rows \<open>mean\<close> and \<open>sd\<close> of every arm as they were and changes no
  column but the chosen arm's; so does \<open>simulate\<close> for the rows \<open>mean\<close> and
  \<open>sd\<close>, for any number of steps. \<open>_act\<close> returns an arm and has no frame to
  return.
\<close>

theorem learning_keeps_ground_truth:
  "distinct (map fst df) \<longrightarrow>
     (greedy_step g f action1 df r1 = Inr (df1, r1') \<longrightarrow>
        truth df1 = truth df \<and> other_arms action1 df1 = other_arms action1 df) \<and>
     (ucb_step u f action2 df r2 = Inr (df2, r2') \<longrightarrow>
        truth df2 = truth df \<and> other_arms action2 df2 = other_arms action2 df) \<and>
     (greedy_simulate g f time3 df r3 = Inr (df3, pct3, r3') \<longrightarrow> truth df3 = truth df) \<and>
     (ucb_simulate u f time4 df r4 = Inr (df4, pct4, r4') \<longrightarrow> truth df4 = truth df)"
proof (rule impI)
  assume d: "distinct (map fst df)"
  have a: "truth df1 = truth df \<and> other_arms action1 df1 = other_arms action1 df"
    if "greedy_step g f action1 df r1 = Inr (df1, r1')"
    using greedy_step_frame [OF that d] .
  have b: "truth df2 = truth df \<and> other_arms action2 df2 = other_arms action2 df"
    if "ucb_step u f action2 df r2 = Inr (df2, r2')"
    using ucb_step_frame [OF that d] .
  have c: "truth df3 = truth df" if "greedy_simulate g f time3 df r3 = Inr (df3, pct3, r3')"
  proof -
    from that obtain cnt where
      "for_each [0..<time3] (greedy_simulate_body g f) (df, 0, [], r3)
         = Inr (df3, cnt, pct3, r3')"
      by (auto simp: greedy_simulate_def bind_err_Inr_iff)
    with for_each_truth [of "greedy_simulate_body g f" "[0..<time3]" df 0 "[]" r3 df3 cnt
           pct3 r3']
      greedy_simulate_body_truth [of g f] d
    show ?thesis by blast
  qed
  have e: "truth df4 = truth df" if "ucb_simulate u f time4 df r4 = Inr (df4, pct4, r4')"
  proof -
    from that obtain cnt where
      "for_each [0..<time4] (ucb_simulate_body u f) (df, 0, [], r4)
         = Inr (df4, cnt, pct4, r4')"
      by (auto simp: ucb_simulate_def bind_err_Inr_iff)
    with for_each_truth [of "ucb_simulate_body u f" "[0..<time4]" df 0 "[]" r4 df4 cnt
           pct4 r4']
      ucb_simulate_body_truth [of u f] d
    show ?thesis by blast
  qed
  show "(greedy_step g f action1 df r1 = Inr (df1, r1') \<longrightarrow>
        truth df1 = truth df \<and> other_arms action1 df1 = other_arms action1 df) \<and>
     (ucb_step u f action2 df r2 = Inr (df2, r2') \<longrightarrow>
        truth df2 = truth df \<and> other_arms action2 df2 = other_arms action2 df) \<and>
     (greedy_simulate g f time3 df r3 = Inr (df3, pct3, r3') \<longrightarrow> truth df3 = truth df) \<and>
     (ucb_simulate u f time4 df r4 = Inr (df4, pct4, r4') \<longrightarrow> truth df4 = truth df)"
    by (simp add: a b c e)
qed

text \<open>
  On the two arms: a step of each learner on arm \<open>A\<close>, two steps of the greedy
  simulation and one of the UCB simulation. The counts and estimates move, the rows
  \<open>mean\<close> and \<open>sd\<close> do not.
\<close>

theorem learning_keeps_ground_truth_witness:
  "distinct (map fst two_arms) \<and>
   greedy_step pure_greedy tape ''A'' two_arms [3]
     = Inr ([(''A'', \<lparr> mean = 0, sd = 1, action_count = 1, q_estimation = 3 \<rparr>),
             (''B'', \<lparr> mean = 1, sd = 1, action_count = 0, q_estimation = 0 \<rparr>)], []) \<and>
   ucb_step ucb_run tape ''B'' two_arms [3]
     = Inr ([(''A'', \<lparr> mean = 0, sd = 1, action_count = 0, q_estimation = 0 \<rparr>),
             (''B'', \<lparr> mean = 1, sd = 1, action_count = 1, q_estimation = 4 \<rparr>)], []) \<and>
   greedy_simulate pure_greedy tape 2 two_arms [0, 0, 0, 0, 1, 0]
     = Inr ([(''A'', \<lparr> mean = 0, sd = 1, action_count = 1, q_estimation = 0 \<rparr>),
             (''B'', \<lparr> mean = 1, sd = 1, action_count = 1, q_estimation = 1 \<rparr>)], [1 / 2], []) \<and>
   ucb_simulate ucb_run tape 1 two_arms [0, 0]
     = Inr ([(''A'', \<lparr> mean = 0, sd = 1, action_count = 1, q_estimation = 0 \<rparr>),
             (''B'', \<lparr> mean = 1, sd = 1, action_count = 0, q_estimation = 0 \<rparr>)], [], []) \<and>
   truth [(''A'', \<lparr> mean = 0, sd = 1, action_count = 1, q_estimation = 3 \<rparr>),
          (''B'', \<lparr> mean = 1, sd = 1, action_count = 0, q_estimation = 0 \<rparr>)] = truth two_arms \<and>
   truth [(''A'', \<lparr> mean = 0, sd = 1, action_count = 0, q_estimation = 0 \<rparr>),
          (''B'', \<lparr> mean = 1, sd = 1, action_count = 1, q_estimation = 4 \<rparr>)] = truth two_arms \<and>
   truth [(''A'', \<lparr> mean = 0, sd = 1, action_count = 1, q_estimation = 0 \<rparr>),
          (''B'', \<lparr> mean = 1, sd = 1, action_count = 1, q_estimation = 1 \<rparr>)] = truth two_arms \<and>
   truth [(''A'', \<lparr> mean = 0, sd = 1, action_count = 1, q_estimation = 0 \<rparr>),
          (''B'', \<lparr> mean = 1, sd = 1, action_count = 0, q_estimation = 0 \<rparr>)] = truth two_arms"
proof -
  have d: "distinct (map fst two_arms)" by (simp add: two_arms_def)
  have h1: "greedy_step pure_greedy tape ''A'' two_arms [3]
     = Inr ([(''A'', \<lparr> mean = 0, sd = 1, action_count = 1, q_estimation = 3 \<rparr>),
             (''B'', \<lparr> mean = 1, sd = 1, action_count = 0, q_estimation = 0 \<rparr>)], [])"
    by code_simp
  have h2: "ucb_step ucb_run tape ''B'' two_arms [3]
     = Inr ([(''A'', \<lparr> mean = 0, sd = 1, action_count = 0, q_estimation = 0 \<rparr>),
             (''B'', \<lparr> mean = 1, sd = 1, action_count = 1, q_estimation = 4 \<rparr>)], [])"
    by code_simp
  have h3: "greedy_simulate pure_greedy tape 2 two_arms [0, 0, 0, 0, 1, 0]
     = Inr ([(''A'', \<lparr> mean = 0, sd = 1, action_count = 1, q_estimation = 0 \<rparr>),
             (''B'', \<lparr> mean = 1, sd = 1, action_count = 1, q_estimation = 1 \<rparr>)], [1 / 2], [])"
    by code_simp
  have h4: "ucb_simulate ucb_run tape 1 two_arms [0, 0]
     = Inr ([(''A'', \<lparr> mean = 0, sd = 1, action_count = 1, q_estimation = 0 \<rparr>),
             (''B'', \<lparr> mean = 1, sd = 1, action_count = 0, q_estimation = 0 \<rparr>)], [], [])"
    by (simp add: ucb_simulate_def ucb_simulate_body_def ucb_act_def UCB_estimation_first
          two_arms_def maximizers_def random_choice_def tape_def pop_def bind_err_def
          py_index_def ucb_step_def df_column_def random_normal_def df_assign_def ucb_run_def
          record_best_def idxmax_mean_def Let_def)
  from learning_keeps_ground_truth
         [where df = two_arms and g = pure_greedy and f = tape and u = ucb_run
            and ?action1.0 = "''A''" and ?r1.0 = "[3]" and ?r1' = "[]"
            and ?action2.0 = "''B''" and ?r2.0 = "[3]" and ?r2' = "[]"
            and ?time3.0 = 2 and ?r3.0 = "[0, 0, 0, 0, 1, 0]" and ?pct3.0 = "[1 / 2]" and ?r3' = "[]"
            and ?time4.0 = 1 and ?r4.0 = "[0, 0]" and ?pct4.0 = "[]" and ?r4' = "[]"]
       d h1 h2 h3 h4
  show ?thesis by simp
qed

subsection \<open>Action selection\<close>

lemma argmax_scan_spec:
  assumes "xs = pre @ vs" and "i = length pre" and "bi < i" and "best = xs ! bi"
    and "\<forall>j<i. xs ! j \<le> best" and "\<forall>j<bi. xs ! j < best"
  shows "argmax_scan vs i best bi < length xs \<and>
         (\<forall>j<length xs. xs ! j \<le> xs ! argmax_scan vs i best bi) \<and>
         (\<forall>j<argmax_scan vs i best bi. xs ! j < xs ! argmax_scan vs i best bi)"
  using assms
proof (induction vs arbitrary: pre i best bi)
  case Nil
  then show ?case by simp
next
  case (Cons v vs)
  have xs: "xs = (pre @ [v]) @ vs" and len: "Suc i = length (pre @ [v])"
    using Cons.prems(1,2) by simp_all
  have v: "xs ! i = v" using Cons.prems(1,2) by simp
  show ?case
  proof (cases "best < v")
    case True
    have a: "\<forall>j<Suc i. xs ! j \<le> v"
      using Cons.prems(5) True v by (auto simp: less_Suc_eq)
    have b: "\<forall>j<i. xs ! j < v"
      using Cons.prems(5) True by force
    from Cons.IH [OF xs len _ _ a b] v True show ?thesis by simp
  next
    case False
    have a: "\<forall>j<Suc i. xs ! j \<le> best"
      using Cons.prems(5) False v by (auto simp: less_Suc_eq)
    from Cons.IH [OF xs len _ Cons.prems(4) a Cons.prems(6)] Cons.prems(3) False
    show ?thesis by simp
  qed
qed

lemma np_argmax_spec:
  assumes "np_argmax row = Inr k"
  shows "k < length row \<and> (\<forall>j<length row. row ! j \<le> row ! k) \<and> (\<forall>j<k. row ! j < row ! k)"
proof (cases row)
  case Nil
  with assms show ?thesis by simp
next
  case (Cons v vs)
  with assms have k: "k = argmax_scan vs 1 v 0" by simp
  have "argmax_scan vs 1 v 0 < length row \<and>
         (\<forall>j<length row. row ! j \<le> row ! argmax_scan vs 1 v 0) \<and>
         (\<forall>j<argmax_scan vs 1 v 0. row ! j < row ! argmax_scan vs 1 v 0)"
  proof (rule argmax_scan_spec [where pre = "[v]"])
    show "row = [v] @ vs" by (simp add: Cons)
    show "1 = length [v]" by simp
    show "(0::nat) < 1" by simp
    show "v = row ! 0" by (simp add: Cons)
    show "\<forall>j<1. row ! j \<le> v" by (simp add: Cons)
    show "\<forall>j<0. row ! j < v" by simp
  qed
  then show ?thesis unfolding k .
qed

lemma greedy_action_first_maximizer:
  assumes "greedy_action e q s = Inr a"
  shows "\<exists>k<length (possible_actions e). a = possible_actions e ! k \<and>
           (\<forall>j<length (possible_actions e).
              the (q (s, possible_actions e ! j)) \<le> the (q (s, a))) \<and>
           (\<forall>j<k. the (q (s, possible_actions e ! j)) < the (q (s, a)))"
proof -
  from assms obtain row k where row: "map_err (q_at q s) (possible_actions e) = Inr row"
    and k: "np_argmax row = Inr k" and a: "py_index (possible_actions e) (int k) = Inr a"
    by (auto simp: greedy_action_def q_row_def bind_err_Inr_iff)
  have rowmap: "row = map (\<lambda>x. the (q (s, x))) (possible_actions e)"
    using row by (rule map_err_q_at_Inr)
  have len: "length row = length (possible_actions e)" by (simp add: rowmap)
  from np_argmax_spec [OF k] have kl: "k < length (possible_actions e)"
    and mx: "\<forall>j<length row. row ! j \<le> row ! k" and fst: "\<forall>j<k. row ! j < row ! k"
    by (simp_all add: len)
  from a kl have ak: "a = possible_actions e ! k" by (simp add: py_index_def)
  have le: "the (q (s, possible_actions e ! j)) \<le> the (q (s, a))"
    if "j < length (possible_actions e)" for j
    using mx that kl by (simp add: rowmap ak)
  have lt: "the (q (s, possible_actions e ! j)) < the (q (s, a))" if "j < k" for j
    using fst that kl by (simp add: rowmap ak)
  from kl ak le lt show ?thesis by blast
qed

lemma maximizers_char:
  assumes "length names = length vals"
  shows "maximizers names vals
         = map fst (filter (\<lambda>(n, x). \<forall>y \<in> set vals. y \<le> x) (zip names vals))"
proof (cases vals)
  case Nil
  then show ?thesis by (simp add: maximizers_def)
next
  case (Cons v vs)
  have "x = foldl max v vs \<longleftrightarrow> (\<forall>y \<in> set vals. y \<le> x)" if "x \<in> set vals" for x
  proof -
    have fin: "finite (set vals)" and ne: "set vals \<noteq> {}" using Cons by simp_all
    have "foldl max v vs = Max (set vals)" by (simp add: foldl_max_eq_Max Cons)
    moreover have "x = Max (set vals) \<longleftrightarrow> (\<forall>y \<in> set vals. y \<le> x)"
      using that fin ne by (auto intro: Max_eqI [symmetric])
    ultimately show ?thesis by simp
  qed
  then have "filter (\<lambda>(n, x). x = foldl max v vs) (zip names vals)
           = filter (\<lambda>(n, x). \<forall>y \<in> set vals. y \<le> x) (zip names vals)"
    by (intro filter_cong refl) (auto dest: set_zip_rightD)
  then show ?thesis by (simp add: maximizers_def Cons)
qed

lemma q_maximizers_char:
  "q_maximizers df
   = map fst (filter (\<lambda>(n, c). \<forall>(n', c') \<in> set df. q_estimation c' \<le> q_estimation c) df)"
proof -
  have z: "zip (map fst df) (map (\<lambda>(n, c). q_estimation c) df)
           = map (\<lambda>(n, c). (n, q_estimation c)) df"
    by (induction df) auto
  have "q_maximizers df
        = map fst (filter (\<lambda>(n, x). \<forall>y \<in> set (map (\<lambda>(n, c). q_estimation c) df). y \<le> x)
                     (map (\<lambda>(n, c). (n, q_estimation c)) df))"
    unfolding q_maximizers_def by (subst maximizers_char) (simp_all add: z)
  also have "\<dots> = map fst (filter (\<lambda>(n, c). \<forall>(n', c') \<in> set df.
                                   q_estimation c' \<le> q_estimation c) df)"
    by (simp add: filter_map comp_def case_prod_unfold)
  finally show ?thesis .
qed

lemma q_maximizers_distinct: "distinct (map fst df) \<Longrightarrow> distinct (q_maximizers df)"
  unfolding q_maximizers_char by (rule distinct_map_filter)

lemma q_maximizers_set:
  "set (q_maximizers df)
   = {n. \<exists>c. (n, c) \<in> set df \<and> (\<forall>(n', c') \<in> set df. q_estimation c' \<le> q_estimation c)}"
  unfolding q_maximizers_char by force

text \<open>
  C6, as stated, fails for \<open>select_action\<close>: in cell 0 of the corridor the fresh table
  holds 0 for both actions, and with \<open>epsilon = 0\<close> every state of the generators
  gives \<open>Left\<close>, the first action; the maximizer \<open>Right\<close> is never returned.
\<close>

theorem select_action_takes_first_maximizer:
  "get_q_df corridor (0, Left) = Some 0 \<and> get_q_df corridor (0, Right) = Some 0 \<and>
   (\<forall>r. select_action corridor control_run tape 0 (get_q_df corridor) r
          = Inr (Left, snd (pop r)))"
  by (simp add: select_action_def greedy_action_def q_row_def get_q_df_def corridor_def
        control_run_def tape_def q_at_def bind_err_def py_index_def split: prod.splits)

text \<open>
  C6, amended. The exploitation branch of \<open>Greedy._act\<close> returns the maximizing arm at
  the drawn index; the maximizing arms are exactly the arms with the largest estimate,
  and each of them sits at exactly one index, so a uniform index is a uniform choice
  among them. The exploitation branch of \<open>select_action\<close> draws nothing more: it returns
  the first action in \<open>possible_actions\<close> whose table entry is the largest of the row.
\<close>

theorem exploitation_tie_breaking:
  "(distinct (map fst df) \<and> rand f r = (x, r1) \<and> \<not> x < epsilon_b g \<and>
      randint f (length (q_maximizers df)) r1 = (i, r2) \<and> i < length (q_maximizers df) \<longrightarrow>
      greedy_act g f df r = Inr (q_maximizers df ! i, r2) \<and>
      set (q_maximizers df)
        = {n. \<exists>c. (n, c) \<in> set df \<and>
                 (\<forall>(n', c') \<in> set df. q_estimation c' \<le> q_estimation c)} \<and>
      (\<forall>m \<in> set (q_maximizers df).
         \<exists>!k. k < length (q_maximizers df) \<and> q_maximizers df ! k = m))
   \<and>
   (rand f' r' = (x', r1') \<and> \<not> x' < epsilon p \<and> select_action e p f' s q r' = Inr (a, r'') \<longrightarrow>
      r'' = r1' \<and>
      (\<exists>k<length (possible_actions e). a = possible_actions e ! k \<and>
         (\<forall>j<length (possible_actions e).
            the (q (s, possible_actions e ! j)) \<le> the (q (s, a))) \<and>
         (\<forall>j<k. the (q (s, possible_actions e ! j)) < the (q (s, a)))))"
proof -
  have bandit: "greedy_act g f df r = Inr (q_maximizers df ! i, r2) \<and>
      set (q_maximizers df)
        = {n. \<exists>c. (n, c) \<in> set df \<and>
                 (\<forall>(n', c') \<in> set df. q_estimation c' \<le> q_estimation c)} \<and>
      (\<forall>m \<in> set (q_maximizers df).
         \<exists>!k. k < length (q_maximizers df) \<and> q_maximizers df ! k = m)"
    if d: "distinct (map fst df)" and u: "rand f r = (x, r1)" "\<not> x < epsilon_b g"
      and i: "randint f (length (q_maximizers df)) r1 = (i, r2)" "i < length (q_maximizers df)"
  proof (intro conjI)
    from i(2) have ne: "q_maximizers df \<noteq> []" by auto
    show "greedy_act g f df r = Inr (q_maximizers df ! i, r2)"
      using u i ne by (simp add: greedy_act_def random_choice_def)
    show "set (q_maximizers df)
        = {n. \<exists>c. (n, c) \<in> set df \<and>
                 (\<forall>(n', c') \<in> set df. q_estimation c' \<le> q_estimation c)}"
      by (rule q_maximizers_set)
    have dm: "distinct (q_maximizers df)" using d by (rule q_maximizers_distinct)
    show "\<forall>m \<in> set (q_maximizers df).
         \<exists>!k. k < length (q_maximizers df) \<and> q_maximizers df ! k = m"
    proof
      fix m assume "m \<in> set (q_maximizers df)"
      then obtain k where k: "k < length (q_maximizers df)" "q_maximizers df ! k = m"
        by (auto simp: in_set_conv_nth)
      show "\<exists>!k. k < length (q_maximizers df) \<and> q_maximizers df ! k = m"
      proof (rule ex1I [of _ k])
        show "k < length (q_maximizers df) \<and> q_maximizers df ! k = m" using k by simp
      next
        fix k' assume "k' < length (q_maximizers df) \<and> q_maximizers df ! k' = m"
        then have "k' < length (q_maximizers df)"
          and "q_maximizers df ! k' = q_maximizers df ! k" using k by simp_all
        with k(1) dm show "k' = k" by (simp add: nth_eq_iff_index_eq)
      qed
    qed
  qed
  have td: "r'' = r1' \<and>
      (\<exists>k<length (possible_actions e). a = possible_actions e ! k \<and>
         (\<forall>j<length (possible_actions e).
            the (q (s, possible_actions e ! j)) \<le> the (q (s, a))) \<and>
         (\<forall>j<k. the (q (s, possible_actions e ! j)) < the (q (s, a))))"
    if u: "rand f' r' = (x', r1')" "\<not> x' < epsilon p"
      and sel: "select_action e p f' s q r' = Inr (a, r'')"
  proof -
    from sel u have "greedy_action e q s = Inr a" and "r'' = r1'"
      by (auto simp: select_action_def bind_err_Inr_iff)
    with greedy_action_first_maximizer [of e q s a] show ?thesis by simp
  qed
  from bandit td show ?thesis by blast
qed

text \<open>
  Both estimates of the two arms are 0 and the drawn index 1 gives arm \<open>B\<close>; in cell
  0 of the corridor \<open>select_action\<close> gives \<open>Left\<close>.
\<close>

theorem exploitation_tie_breaking_witness:
  "distinct (map fst two_arms) \<and> rand tape [0, 1] = (0, [1]) \<and>
   \<not> (0 :: real) < epsilon_b pure_greedy \<and>
   randint tape (length (q_maximizers two_arms)) [1] = (1, []) \<and>
   1 < length (q_maximizers two_arms) \<and>
   q_maximizers two_arms = [''A'', ''B''] \<and>
   greedy_act pure_greedy tape two_arms [0, 1] = Inr (''B'', []) \<and>
   rand tape [0] = (0, []) \<and> \<not> (0 :: real) < epsilon control_run \<and>
   select_action corridor control_run tape 0 (get_q_df corridor) [0] = Inr (Left, [])"
proof -
  have m: "q_maximizers two_arms = [''A'', ''B'']" by code_simp
  have d: "distinct (map fst two_arms)" by (simp add: two_arms_def)
  have a: "rand tape [0, 1] = (0, [1])" "\<not> (0 :: real) < epsilon_b pure_greedy"
    "randint tape (length (q_maximizers two_arms)) [1] = (1, [])"
    "1 < length (q_maximizers two_arms)"
    by (simp_all add: m tape_def pop_def pure_greedy_def)
  have b: "rand tape [0] = (0, [])" "\<not> (0 :: real) < epsilon control_run"
    by (simp_all add: tape_def pop_def control_run_def)
  have c: "select_action corridor control_run tape 0 (get_q_df corridor) [0] = Inr (Left, [])"
    by code_simp
  from exploitation_tie_breaking [of two_arms tape "[0, 1]" 0 "[1]" pure_greedy 1 "[]"
         tape "[0]" 0 "[]" control_run corridor 0 "get_q_df corridor" Left "[]"] d a b c
  have "greedy_act pure_greedy tape two_arms [0, 1] = Inr (q_maximizers two_arms ! 1, [])"
    by blast
  with m d a b c show ?thesis by simp
qed

end
